theory Spec2Isabelle
  imports Complex_Main "HOL-Library.AList"
begin

section \<open>Data model\<close>

text \<open>
  Python floats that the program compares and subtracts are modelled as real numbers;
  the one place where the program uses \<^verbatim>\<open>float('inf')\<close> (the initial best distance of
  \<^verbatim>\<open>recognize_face\<close>) is modelled by the extra constructor \<open>PosInf\<close>.
  Clock readings (\<^verbatim>\<open>datetime.now()\<close>, \<^verbatim>\<open>time.time()\<close>) are real numbers of seconds and
  are passed to every operation as the parameter \<open>now\<close>: an operation reads the clock once.
\<close>

datatype pyfloat = Finite real | PosInf

text \<open>\<^verbatim>\<open>RecognitionResult\<close> (src/recognition/recognizer.py).\<close>

record recognition_result =
  person_id :: string
  confidence :: real
  is_known :: bool
  timestamp :: real
  distance :: pyfloat
  model_name :: string

text \<open>
  \<^verbatim>\<open>CacheEntry\<close> (src/recognition/cache.py). The fields \<^verbatim>\<open>timestamp\<close> and \<^verbatim>\<open>hit_count\<close>
  carry the prefix \<open>e_\<close> because \<^verbatim>\<open>RecognitionResult\<close> and \<^verbatim>\<open>RecognitionCache\<close> have
  fields of the same names.
\<close>

record cache_entry =
  result :: recognition_result
  e_timestamp :: real
  frame_hash :: string
  e_hit_count :: int

definition is_expired :: "cache_entry \<Rightarrow> int \<Rightarrow> real \<Rightarrow> bool" where
  "is_expired e ttl now \<longleftrightarrow> now - e_timestamp e > real_of_int ttl"

text \<open>
  \<^verbatim>\<open>RecognitionCache\<close>. The dictionary \<^verbatim>\<open>self.cache\<close> is an association list in insertion
  order (as a Python dict is): \<open>AList.update\<close> overwrites a present key in place and appends
  a new one, \<open>AList.delete\<close> is \<^verbatim>\<open>del\<close>. The lock is not modelled: operations are atomic.
\<close>

record recognition_cache =
  max_size :: int
  ttl_seconds :: int
  cache :: "(string \<times> cache_entry) list"
  access_order :: "string list"
  hit_count :: int
  miss_count :: int
  total_requests :: int
  cleanup_interval :: int
  last_cleanup :: real

definition init_cache :: "int \<Rightarrow> int \<Rightarrow> real \<Rightarrow> recognition_cache" where
  "init_cache ms ttl now =
     \<lparr>max_size = ms, ttl_seconds = ttl, cache = [], access_order = [],
      hit_count = 0, miss_count = 0, total_requests = 0,
      cleanup_interval = 60, last_cleanup = now\<rparr>"

section \<open>RecognitionCache operations\<close>

definition remove_entry :: "string \<Rightarrow> recognition_cache \<Rightarrow> recognition_cache" where
  "remove_entry key c =
     c\<lparr>cache := AList.delete key (cache c),
       access_order := remove1 key (access_order c)\<rparr>"

definition evict_lru :: "recognition_cache \<Rightarrow> recognition_cache" where
  "evict_lru c =
     (case access_order c of
        [] \<Rightarrow> c
      | lru_key # _ \<Rightarrow> remove_entry lru_key c)"

definition expired_keys :: "real \<Rightarrow> recognition_cache \<Rightarrow> string list" where
  "expired_keys now c =
     map fst (filter (\<lambda>(key, entry). is_expired entry (ttl_seconds c) now) (cache c))"

definition cleanup_expired :: "real \<Rightarrow> recognition_cache \<Rightarrow> recognition_cache" where
  "cleanup_expired now c = fold remove_entry (expired_keys now c) c"

definition sweep_due :: "real \<Rightarrow> recognition_cache \<Rightarrow> bool" where
  "sweep_due now c \<longleftrightarrow> now - last_cleanup c > real_of_int (cleanup_interval c)"

definition maybe_cleanup :: "real \<Rightarrow> recognition_cache \<Rightarrow> recognition_cache" where
  "maybe_cleanup now c =
     (if sweep_due now c then (cleanup_expired now c)\<lparr>last_cleanup := now\<rparr> else c)"

text \<open>The constructor call \<^verbatim>\<open>CacheEntry(result=..., timestamp=datetime.now(), frame_hash=...)\<close>
  of \<^verbatim>\<open>put\<close>; \<^verbatim>\<open>hit_count\<close> takes its default 0.\<close>

definition new_entry :: "string \<Rightarrow> recognition_result \<Rightarrow> real \<Rightarrow> cache_entry" where
  "new_entry fh r now = \<lparr>result = r, e_timestamp = now, frame_hash = fh, e_hit_count = 0\<rparr>"

text \<open>The two lines \<^verbatim>\<open>if k in access_order: access_order.remove(k)\<close>,
  \<^verbatim>\<open>access_order.append(k)\<close> shared by \<^verbatim>\<open>get\<close> and \<^verbatim>\<open>put\<close>.\<close>

definition touch :: "string \<Rightarrow> recognition_cache \<Rightarrow> recognition_cache" where
  "touch fh c = c\<lparr>access_order := remove1 fh (access_order c) @ [fh]\<rparr>"

definition put :: "string \<Rightarrow> recognition_result \<Rightarrow> real \<Rightarrow> recognition_cache \<Rightarrow> recognition_cache" where
  "put fh r now c =
     (let c1 = (if int (length (cache c)) \<ge> max_size c then evict_lru c else c);
          entry = new_entry fh r now;
          c2 = c1\<lparr>cache := AList.update fh entry (cache c1)\<rparr>;
          c3 = touch fh c2
      in maybe_cleanup now c3)"

text \<open>The state of \<^verbatim>\<open>put\<close> just before its last line \<^verbatim>\<open>self._maybe_cleanup()\<close>, used to say
  what the periodic sweep of that \<^verbatim>\<open>put\<close> finds.\<close>

definition put_store :: "string \<Rightarrow> recognition_result \<Rightarrow> real \<Rightarrow> recognition_cache \<Rightarrow> recognition_cache" where
  "put_store fh r now c =
     (let c1 = (if int (length (cache c)) \<ge> max_size c then evict_lru c else c);
          entry = new_entry fh r now;
          c2 = c1\<lparr>cache := AList.update fh entry (cache c1)\<rparr>
      in touch fh c2)"

definition get :: "string \<Rightarrow> real \<Rightarrow> recognition_cache \<Rightarrow> recognition_result option \<times> recognition_cache" where
  "get fh now c =
     (let c1 = c\<lparr>total_requests := total_requests c + 1\<rparr> in
      case map_of (cache c1) fh of
        None \<Rightarrow> (None, c1\<lparr>miss_count := miss_count c1 + 1\<rparr>)
      | Some entry \<Rightarrow>
          if is_expired entry (ttl_seconds c1) now then
            (let c2 = remove_entry fh c1 in (None, c2\<lparr>miss_count := miss_count c2 + 1\<rparr>))
          else
            (let c2 = touch fh c1;
                 c3 = c2\<lparr>cache := AList.update fh (entry\<lparr>e_hit_count := e_hit_count entry + 1\<rparr>) (cache c2),
                        hit_count := hit_count c2 + 1\<rparr>
             in (Some (result entry), c3)))"

definition invalidate :: "string option \<Rightarrow> recognition_cache \<Rightarrow> recognition_cache" where
  "invalidate pid c =
     (case pid of
        None \<Rightarrow> c\<lparr>cache := [], access_order := []\<rparr>
      | Some p \<Rightarrow>
          fold remove_entry
            (map fst (filter (\<lambda>(key, entry). person_id (result entry) = p) (cache c))) c)"

text \<open>The public operations, and the states a cache can reach from its constructor.\<close>

datatype cache_op =
    Get string real
  | Put string recognition_result real
  | Invalidate "string option"

fun apply_op :: "cache_op \<Rightarrow> recognition_cache \<Rightarrow> recognition_cache" where
  "apply_op (Get fh now) c = snd (get fh now c)"
| "apply_op (Put fh r now) c = put fh r now c"
| "apply_op (Invalidate pid) c = invalidate pid c"

definition run_ops :: "cache_op list \<Rightarrow> recognition_cache \<Rightarrow> recognition_cache" where
  "run_ops ops c = fold apply_op ops c"

text \<open>The fingerprints stored in the map, and the structural invariant relating the map
  and the access-order sequence: no fingerprint twice in either, and the same fingerprints
  in both.\<close>

definition keys :: "recognition_cache \<Rightarrow> string set" where
  "keys c = fst ` set (cache c)"

definition cache_inv :: "recognition_cache \<Rightarrow> bool" where
  "cache_inv c \<longleftrightarrow>
     distinct (map fst (cache c)) \<and> distinct (access_order c) \<and>
     set (access_order c) = keys c"


text \<open>The fingerprints a sequence of operations inserts, in order.\<close>

fun put_keys :: "cache_op list \<Rightarrow> string list" where
  "put_keys [] = []"
| "put_keys (Put fh r now # ops) = fh # put_keys ops"
| "put_keys (Get fh now # ops) = put_keys ops"
| "put_keys (Invalidate pid # ops) = put_keys ops"



text \<open>A sample recognition result for the person \<open>p\<close>.\<close>

abbreviation sample_result :: "string \<Rightarrow> recognition_result" where
  "sample_result p \<equiv>
     \<lparr>person_id = p, confidence = 0.8, is_known = True, timestamp = 0,
      distance = Finite 0.2, model_name = ''VGG-Face''\<rparr>"

section \<open>FaceRecognizer (src/recognition/recognizer.py)\<close>

text \<open>
  Exceptions are values: a call that may raise returns \<open>py_exception + 'a\<close>, and a
  \<^verbatim>\<open>try\<close>/\<^verbatim>\<open>except Exception\<close> block is a case distinction on that result.
\<close>

datatype py_exception = OSError | ValueError | CvError | EngineError | MixerError

text \<open>A numpy array, by the one attribute this code reads from it.\<close>

record ndarray =
  nd_size :: nat

text \<open>The fields of \<^verbatim>\<open>FaceRecognizer\<close>; \<^verbatim>\<open>model_name\<close> is \<open>fr_model_name\<close> here
  (\<^verbatim>\<open>RecognitionResult\<close> has a field of that name).\<close>

record face_recognizer =
  known_faces_path :: string
  fr_model_name :: string
  detector_backend :: string
  confidence_threshold :: real
  distance_metric :: string
  is_initialized :: bool
  known_persons :: "string list"

text \<open>
  \<^verbatim>\<open>FaceRecognizer.__init__\<close> before it scans the gallery: each argument is the value the
  configuration holds under the key, if any (\<^verbatim>\<open>config.get(key, default)\<close>).
\<close>

definition init_recognizer ::
  "string option \<Rightarrow> string option \<Rightarrow> real option \<Rightarrow> string option \<Rightarrow> face_recognizer" where
  "init_recognizer cfg_model cfg_backend cfg_threshold cfg_metric =
     \<lparr>known_faces_path = ''known_faces'',
      fr_model_name = (case cfg_model of None \<Rightarrow> ''VGG-Face'' | Some m \<Rightarrow> m),
      detector_backend = (case cfg_backend of None \<Rightarrow> ''opencv'' | Some b \<Rightarrow> b),
      confidence_threshold = (case cfg_threshold of None \<Rightarrow> 0.6 | Some t \<Rightarrow> t),
      distance_metric = (case cfg_metric of None \<Rightarrow> ''cosine'' | Some m \<Rightarrow> m),
      is_initialized = False, known_persons = []\<rparr>"

text \<open>
  \<^verbatim>\<open>_distance_to_confidence\<close>. On \<^verbatim>\<open>float('inf')\<close> every branch computes
  \<^verbatim>\<open>max(0.0, 1.0 - inf) = 0.0\<close> (and \<^verbatim>\<open>inf / 2.0 = inf\<close>), then \<^verbatim>\<open>min(1.0, 0.0) = 0.0\<close>.
\<close>

definition distance_to_confidence :: "face_recognizer \<Rightarrow> pyfloat \<Rightarrow> real" where
  "distance_to_confidence self d =
     (case d of
        PosInf \<Rightarrow> 0
      | Finite x \<Rightarrow>
          (let conf =
             (if distance_metric self = ''cosine'' then max 0 (1 - x)
              else if distance_metric self = ''euclidean'' then max 0 (1 - x / 2)
              else if distance_metric self = ''euclidean_l2'' then max 0 (1 - x)
              else max 0 (1 - x))
           in min 1 conf))"

text \<open>
  \<^verbatim>\<open>f.lower().endswith(('.jpg', '.jpeg', '.png', '.bmp'))\<close>. \<open>lower_char\<close> lowers the ASCII
  letters; the other characters below 256 that Python lowers (U+00C0 to U+00DE) are not
  lowered to a character of the four suffixes, so the test is the same.
\<close>

definition lower_char :: "char \<Rightarrow> char" where
  "lower_char c =
     (case map_of (zip ''ABCDEFGHIJKLMNOPQRSTUVWXYZ'' ''abcdefghijklmnopqrstuvwxyz'') c of
        None \<Rightarrow> c
      | Some l \<Rightarrow> l)"

definition lower :: "string \<Rightarrow> string" where
  "lower s = map lower_char s"

definition endswith :: "string \<Rightarrow> string \<Rightarrow> bool" where
  "endswith s suf \<longleftrightarrow> length suf \<le> length s \<and> drop (length s - length suf) s = suf"

definition is_image_file :: "string \<Rightarrow> bool" where
  "is_image_file f \<longleftrightarrow>
     (let l = lower f in
      endswith l ''.jpg'' \<or> endswith l ''.jpeg'' \<or> endswith l ''.png'' \<or> endswith l ''.bmp'')"

text \<open>
  The external collaborators of \<^verbatim>\<open>recognize_face\<close>: the file system (\<^verbatim>\<open>os.listdir\<close> of a
  person's gallery directory, given the person id) and the matching engine
  (\<^verbatim>\<open>DeepFace.verify\<close> of the query face against one gallery image, given the person id
  and the file name; the result is \<^verbatim>\<open>result['distance']\<close>). Either may raise.
\<close>

record gallery_env =
  listdir :: "string \<Rightarrow> py_exception + string list"
  verify :: "string \<Rightarrow> string \<Rightarrow> py_exception + real"

text \<open>The inner loop over a person's images: a comparison that raises is skipped.\<close>

fun person_distances :: "gallery_env \<Rightarrow> string \<Rightarrow> string list \<Rightarrow> real list" where
  "person_distances env pid [] = []"
| "person_distances env pid (image_file # rest) =
     (case verify env pid image_file of
        Inl _ \<Rightarrow> person_distances env pid rest
      | Inr d \<Rightarrow> d # person_distances env pid rest)"

definition mean :: "real list \<Rightarrow> real" where
  "mean xs = sum_list xs / real (length xs)"

text \<open>\<^verbatim>\<open>avg_distance < best_distance\<close>, where \<^verbatim>\<open>best_distance\<close> starts as \<^verbatim>\<open>float('inf')\<close>.\<close>

fun less_pyfloat :: "real \<Rightarrow> pyfloat \<Rightarrow> bool" where
  "less_pyfloat a PosInf = True"
| "less_pyfloat a (Finite b) = (a < b)"

text \<open>
  The outer loop over \<^verbatim>\<open>self.known_persons\<close>, with the loop variables
  \<^verbatim>\<open>(best_distance, best_person)\<close> as accumulator. \<^verbatim>\<open>os.listdir\<close> is not guarded by the
  inner \<^verbatim>\<open>try\<close>, so its exception leaves the loop.
\<close>

fun match_loop ::
  "gallery_env \<Rightarrow> string list \<Rightarrow> pyfloat \<times> string \<Rightarrow> py_exception + (pyfloat \<times> string)" where
  "match_loop env [] best = Inr best"
| "match_loop env (pid # rest) (best_distance, best_person) =
     (case listdir env pid of
        Inl e \<Rightarrow> Inl e
      | Inr files \<Rightarrow>
          (let image_files = filter is_image_file files;
               ds = person_distances env pid image_files
           in if ds \<noteq> [] then
                (let avg_distance = mean ds in
                 if less_pyfloat avg_distance best_distance
                 then match_loop env rest (Finite avg_distance, pid)
                 else match_loop env rest (best_distance, best_person))
              else match_loop env rest (best_distance, best_person)))"

text \<open>The result returned by every guard and by the \<^verbatim>\<open>except\<close> branch; \<^verbatim>\<open>distance\<close> and
  \<^verbatim>\<open>model_name\<close> take the dataclass defaults.\<close>

definition unknown_result :: "real \<Rightarrow> recognition_result" where
  "unknown_result now =
     \<lparr>person_id = ''unknown'', confidence = 0, is_known = False, timestamp = now,
      distance = Finite 0, model_name = ''''\<rparr>"

text \<open>The body of the \<^verbatim>\<open>try\<close> block of \<^verbatim>\<open>recognize_face\<close>.\<close>

definition recognize_body ::
  "gallery_env \<Rightarrow> face_recognizer \<Rightarrow> real \<Rightarrow> py_exception + recognition_result" where
  "recognize_body env self now =
     (case match_loop env (known_persons self) (PosInf, ''unknown'') of
        Inl e \<Rightarrow> Inl e
      | Inr (best_distance, best_person) \<Rightarrow>
          (let conf = distance_to_confidence self best_distance;
               known = (conf \<ge> confidence_threshold self);
               person = (if \<not> known then ''unknown'' else best_person)
           in Inr \<lparr>person_id = person, confidence = conf, is_known = known,
                   timestamp = now, distance = best_distance,
                   model_name = fr_model_name self\<rparr>))"

text \<open>
  \<^verbatim>\<open>recognize_face\<close>. \<open>deepface_available\<close> is the module constant \<^verbatim>\<open>DEEPFACE_AVAILABLE\<close>;
  \<open>face_image = None\<close> is Python's \<^verbatim>\<open>None\<close>. The result type keeps room for an exception
  that would leave the function.
\<close>

definition recognize_face ::
  "bool \<Rightarrow> gallery_env \<Rightarrow> face_recognizer \<Rightarrow> ndarray option \<Rightarrow> real
     \<Rightarrow> py_exception + recognition_result" where
  "recognize_face deepface_available env self face_image now =
     (if \<not> deepface_available \<or> \<not> is_initialized self then Inr (unknown_result now)
      else case face_image of
        None \<Rightarrow> Inr (unknown_result now)
      | Some img \<Rightarrow>
          if nd_size img = 0 then Inr (unknown_result now)
          else (case recognize_body env self now of
                  Inl e \<Rightarrow> Inr (unknown_result now)
                | Inr r \<Rightarrow> Inr r))"

text \<open>The candidates of a run: the enrolled persons with at least one successful
  comparison, each with the mean of its distances.\<close>

definition person_avg :: "gallery_env \<Rightarrow> string \<Rightarrow> real option" where
  "person_avg env pid =
     (case listdir env pid of
        Inl _ \<Rightarrow> None
      | Inr files \<Rightarrow>
          (let ds = person_distances env pid (filter is_image_file files)
           in if ds \<noteq> [] then Some (mean ds) else None))"

text \<open>What the loop of \<^verbatim>\<open>recognize_face\<close> establishes when it runs over the persons \<open>ps\<close>
  from the accumulator \<open>(bd, bp)\<close> to \<open>(bd', bp')\<close>: either no candidate was better than
  \<open>bd\<close> and the accumulator is unchanged, or the result is a candidate better than \<open>bd\<close>;
  and no candidate is better than the result.\<close>

definition loop_post ::
  "gallery_env \<Rightarrow> string list \<Rightarrow> pyfloat \<Rightarrow> string \<Rightarrow> pyfloat \<Rightarrow> string \<Rightarrow> bool" where
  "loop_post env ps bd bp bd' bp' \<longleftrightarrow>
     ((bd' = bd \<and> bp' = bp \<and>
         (\<forall>p\<in>set ps. \<forall>a. person_avg env p = Some a \<longrightarrow> \<not> less_pyfloat a bd)) \<or>
      (\<exists>p\<in>set ps. \<exists>a. person_avg env p = Some a \<and> bd' = Finite a \<and> bp' = p \<and>
         less_pyfloat a bd)) \<and>
     (\<forall>q\<in>set ps. \<forall>b. person_avg env q = Some b \<longrightarrow> \<not> less_pyfloat b bd')"

text \<open>Sample inputs: a recognizer with the default configuration, and a gallery with alice
  (two images and a text file that is not an image) and bob (one image).\<close>

abbreviation cosine_recognizer :: "real \<Rightarrow> string list \<Rightarrow> face_recognizer" where
  "cosine_recognizer thr ps \<equiv>
     \<lparr>known_faces_path = ''known_faces'', fr_model_name = ''VGG-Face'',
      detector_backend = ''opencv'', confidence_threshold = thr,
      distance_metric = ''cosine'', is_initialized = True, known_persons = ps\<rparr>"

abbreviation sample_gallery :: "real \<Rightarrow> real \<Rightarrow> real \<Rightarrow> gallery_env" where
  "sample_gallery a1 a2 b1 \<equiv>
     \<lparr>listdir = (\<lambda>p. if p = ''alice'' then Inr [''1.JPG'', ''notes.txt'', ''2.png'']
                      else if p = ''bob'' then Inr [''b.jpeg''] else Inl OSError),
      verify = (\<lambda>p f. if p = ''alice'' then (if f = ''1.JPG'' then Inr a1 else Inr a2)
                       else Inr b1)\<rparr>"


section \<open>FrameProcessor (src/video/processor.py)\<close>

text \<open>
  A frame is known to \<^verbatim>\<open>is_frame_suitable\<close> by its size and by what the image library
  computes from it: \<^verbatim>\<open>cv2.cvtColor(frame, COLOR_BGR2GRAY)\<close>, and on the gray image
  \<^verbatim>\<open>cv2.Laplacian(gray, CV_64F).var()\<close> and \<^verbatim>\<open>np.mean(gray)\<close>. Each call may raise.
\<close>

record gray_image =
  laplacian_var :: "py_exception + real"
  gray_mean :: "py_exception + real"

record frame = ndarray +
  to_gray :: "py_exception + gray_image"

definition detect_blur :: "frame option \<Rightarrow> real" where
  "detect_blur fr =
     (case fr of
        None \<Rightarrow> 0
      | Some f \<Rightarrow>
          (case to_gray f of
             Inl _ \<Rightarrow> 0
           | Inr gray \<Rightarrow>
               (case laplacian_var gray of
                  Inl _ \<Rightarrow> 0
                | Inr v \<Rightarrow> v)))"

text \<open>The body of the \<^verbatim>\<open>try\<close> block of \<^verbatim>\<open>is_frame_suitable\<close>.\<close>

definition suitable_body :: "frame \<Rightarrow> real \<Rightarrow> py_exception + bool" where
  "suitable_body f blur_threshold =
     (if nd_size f = 0 then Inr False
      else
        (let blur_level = detect_blur (Some f) in
         if blur_level < blur_threshold then Inr False
         else
           (case to_gray f of
              Inl e \<Rightarrow> Inl e
            | Inr gray \<Rightarrow>
                (case gray_mean gray of
                   Inl e \<Rightarrow> Inl e
                 | Inr mean_brightness \<Rightarrow>
                     if mean_brightness < 30 \<or> mean_brightness > 225 then Inr False
                     else Inr True))))"

definition is_frame_suitable :: "frame option \<Rightarrow> real \<Rightarrow> py_exception + bool" where
  "is_frame_suitable fr blur_threshold =
     (case fr of
        None \<Rightarrow> Inr False
      | Some f \<Rightarrow>
          (case suitable_body f blur_threshold of
             Inl e \<Rightarrow> Inr False
           | Inr b \<Rightarrow> Inr b))"

text \<open>A sample frame of the given size, Laplacian variance and mean brightness.\<close>

abbreviation sample_frame :: "nat \<Rightarrow> real \<Rightarrow> real \<Rightarrow> frame" where
  "sample_frame n v m \<equiv>
     \<lparr>nd_size = n, to_gray = Inr \<lparr>laplacian_var = Inr v, gray_mean = Inr m\<rparr>\<rparr>"


section \<open>AudioManager (src/audio/manager.py)\<close>

text \<open>
  The fields of \<^verbatim>\<open>AudioManager\<close> that the announcement logic reads or writes (volume, the
  TTS engine object and the thread handle are left out).
\<close>

record audio_manager =
  audio_enabled :: bool
  message_cooldown :: real
  last_played :: "string \<rightharpoonup> real"
  is_playing :: bool
  current_audio_file :: "string option"

text \<open>
  What the audio libraries answer during one call: the module constant
  \<^verbatim>\<open>PYGAME_AVAILABLE\<close>, the outcome of \<^verbatim>\<open>pygame.mixer.music.stop()\<close>, and the outcome of
  \<^verbatim>\<open>tts_engine.generate_speech(message, language)\<close>.
\<close>

record audio_env =
  pygame_available :: bool
  mixer_stop :: "py_exception + unit"
  generate_speech :: "string \<Rightarrow> string \<Rightarrow> py_exception + string option"

definition is_in_cooldown :: "audio_manager \<Rightarrow> string \<Rightarrow> real \<Rightarrow> bool" where
  "is_in_cooldown self pid now =
     (case last_played self pid of
        None \<Rightarrow> False
      | Some t \<Rightarrow> now - t < message_cooldown self)"

definition stop_current_audio :: "audio_env \<Rightarrow> audio_manager \<Rightarrow> audio_manager" where
  "stop_current_audio env self =
     (if pygame_available env \<and> is_playing self then
        (case mixer_stop env of
           Inl _ \<Rightarrow> self
         | Inr _ \<Rightarrow> self\<lparr>is_playing := False, current_audio_file := None\<rparr>)
      else self)"

text \<open>
  \<^verbatim>\<open>str.strip()\<close>. A character of a string is a code point below 256; the ones for which
  \<^verbatim>\<open>isspace()\<close> holds are U+0009 to U+000D, U+001C to U+001F, U+0020, U+0085 and U+00A0.
  (Whitespace of higher code points has no character here.)
\<close>

definition py_isspace :: "char \<Rightarrow> bool" where
  "py_isspace c \<longleftrightarrow>
     c \<in> set [CHR 0x09, CHR 0x0A, CHR 0x0B, CHR 0x0C, CHR 0x0D,
              CHR 0x1C, CHR 0x1D, CHR 0x1E, CHR 0x1F, CHR 0x20,
              CHR 0x85, CHR 0xA0]"

definition strip :: "string \<Rightarrow> string" where
  "strip s = rev (dropWhile py_isspace (rev (dropWhile py_isspace s)))"

text \<open>
  \<^verbatim>\<open>play_voice_message\<close> returns its boolean, the manager as its own writes leave it, and
  the thread it started, if any: the arguments \<^verbatim>\<open>(audio_file, person_id)\<close> of
  \<^verbatim>\<open>_play_audio_file\<close>. The returned manager is the state in which
  \<^verbatim>\<open>self.playback_thread.start()\<close> is called; from there on the thread runs concurrently
  and its writes (\<open>playback_begin\<close>, \<open>playback_end\<close> below) are not part of this function.
  \<^verbatim>\<open>person_id\<close> is optional and is tested for truth (\<^verbatim>\<open>None\<close> and \<^verbatim>\<open>''\<close> are false).
\<close>

definition play_voice_message ::
  "audio_env \<Rightarrow> audio_manager \<Rightarrow> string \<Rightarrow> string \<Rightarrow> string option \<Rightarrow> real
     \<Rightarrow> bool \<times> audio_manager \<times> (string \<times> string option) option" where
  "play_voice_message env self message language pid now =
     (if \<not> audio_enabled self then (False, self, None)
      else if \<not> pygame_available env then (False, self, None)
      else if message = [] \<or> strip message = [] then (False, self, None)
      else if (case pid of None \<Rightarrow> False | Some p \<Rightarrow> p \<noteq> [] \<and> is_in_cooldown self p now)
        then (False, self, None)
      else
        (let self1 = stop_current_audio env self in
         case generate_speech env message language of
           Inl e \<Rightarrow> (False, self1, None)
         | Inr None \<Rightarrow> (False, self1, None)
         | Inr (Some audio_file) \<Rightarrow>
             if audio_file = [] then (False, self1, None)
             else (True, self1, Some (audio_file, pid))))"

text \<open>
  The playback thread \<^verbatim>\<open>_play_audio_file\<close>, in two steps: up to \<^verbatim>\<open>pygame.mixer.music.play()\<close>
  and the update of \<^verbatim>\<open>last_played\<close> (\<open>file_exists\<close> is \<^verbatim>\<open>os.path.exists(audio_file)\<close>,
  \<open>play_raises\<close> says whether loading or playing raises), and the end of the wait loop.
\<close>

definition playback_begin ::
  "bool \<Rightarrow> bool \<Rightarrow> string \<times> string option \<Rightarrow> real \<Rightarrow> audio_manager \<Rightarrow> audio_manager" where
  "playback_begin file_exists play_raises th now self =
     (case th of (audio_file, pid) \<Rightarrow>
        if \<not> file_exists then self
        else if play_raises then self\<lparr>is_playing := False, current_audio_file := None\<rparr>
        else
          (let self1 = self\<lparr>is_playing := True, current_audio_file := Some audio_file\<rparr> in
           case pid of
             None \<Rightarrow> self1
           | Some p \<Rightarrow> if p \<noteq> [] then self1\<lparr>last_played := (last_played self1)(p \<mapsto> now)\<rparr>
                       else self1))"

definition playback_end :: "audio_manager \<Rightarrow> audio_manager" where
  "playback_end self = self\<lparr>is_playing := False, current_audio_file := None\<rparr>"


section \<open>MemoryMirrorApp (app.py)\<close>

text \<open>
  The application object. A collaborator is either absent (\<^verbatim>\<open>None\<close>) or an instance of
  the repository's class, which has every method that \<^verbatim>\<open>process_frame\<close> looks for with
  \<^verbatim>\<open>hasattr\<close>; so each \<^verbatim>\<open>hasattr\<close> test is the test for presence.
\<close>

record app =
  face_detector_present :: bool
  face_recognizer_present :: bool
  person_database_present :: bool
  audio_manager :: "audio_manager option"
  last_recognition_time :: "string \<rightharpoonup> real"
  recognition_cooldown :: real

text \<open>\<^verbatim>\<open>MemoryMirrorApp.__init__\<close>.\<close>

definition init_app :: app where
  "init_app =
     \<lparr>face_detector_present = False, face_recognizer_present = False,
      person_database_present = False, audio_manager = None,
      last_recognition_time = Map.empty, recognition_cooldown = 30\<rparr>"

definition should_play_message :: "app \<Rightarrow> string \<Rightarrow> real \<Rightarrow> bool" where
  "should_play_message self pid current_time =
     (let last_time = (case last_recognition_time self pid of None \<Rightarrow> 0 | Some t \<Rightarrow> t)
      in current_time - last_time > recognition_cooldown self)"

text \<open>The fields of \<^verbatim>\<open>PersonProfile\<close> that \<^verbatim>\<open>process_frame\<close> reads, and a detected face.\<close>

record person_profile =
  voice_message :: string
  language_preference :: string

record face_info =
  face_x :: int
  face_y :: int
  face_width :: int
  face_height :: int

text \<open>
  What the collaborators answer during one call of \<^verbatim>\<open>process_frame\<close> on a given frame:
  \<^verbatim>\<open>detect_faces(frame)\<close>, \<^verbatim>\<open>extract_face_region(frame, face)\<close>, \<^verbatim>\<open>recognize_face(region)\<close>,
  \<^verbatim>\<open>get_person_profile(id)\<close> and the audio libraries. The calls made are recorded in a log.
\<close>

record tick_env =
  detect_faces :: "py_exception + face_info list"
  extract_face_region :: "face_info \<Rightarrow> py_exception + ndarray option"
  recognize :: "ndarray option \<Rightarrow> py_exception + recognition_result option"
  get_person_profile :: "string \<Rightarrow> py_exception + person_profile option"
  audio :: audio_env

datatype call = CallDetect | CallExtract | CallRecognize | CallGetProfile | CallPlay

text \<open>What a call of \<^verbatim>\<open>process_frame\<close> yields: the pair it returns, the application as
  its own writes leave it, the collaborator calls it made, and the playback thread it
  started, if any (whose own writes are not part of \<^verbatim>\<open>process_frame\<close>).\<close>

record tick_result =
  tr_result :: "recognition_result option"
  status :: string
  tr_app :: app
  calls :: "call list"
  spawned :: "(string \<times> string option) option"

text \<open>
  The branch of \<^verbatim>\<open>process_frame\<close> taken when the cooldown permits the announcement for
  the recognized person: look the profile up, play its message, record the time.
\<close>

definition announce ::
  "tick_env \<Rightarrow> app \<Rightarrow> recognition_result \<Rightarrow> real \<Rightarrow> call list \<Rightarrow> tick_result" where
  "announce env self r now trace =
     (if person_database_present self then
        (case get_person_profile env (person_id r) of
           Inl e \<Rightarrow>
             \<lparr>tr_result = None, status = ''unknown'', tr_app = self,
              calls = trace @ [CallGetProfile], spawned = None\<rparr>
         | Inr None \<Rightarrow>
             \<lparr>tr_result = Some r, status = ''recognized'',
              tr_app = self\<lparr>last_recognition_time := (last_recognition_time self)(person_id r \<mapsto> now)\<rparr>,
              calls = trace @ [CallGetProfile], spawned = None\<rparr>
         | Inr (Some profile) \<Rightarrow>
             (case audio_manager self of
                None \<Rightarrow>
                  \<lparr>tr_result = Some r, status = ''recognized'',
                   tr_app = self\<lparr>last_recognition_time := (last_recognition_time self)(person_id r \<mapsto> now)\<rparr>,
                   calls = trace @ [CallGetProfile], spawned = None\<rparr>
              | Some am \<Rightarrow>
                  (case play_voice_message (audio env) am (voice_message profile)
                          (language_preference profile) None now of
                     (ok, am', th) \<Rightarrow>
                       \<lparr>tr_result = Some r, status = ''recognized'',
                        tr_app = self\<lparr>audio_manager := Some am',
                          last_recognition_time := (last_recognition_time self)(person_id r \<mapsto> now)\<rparr>,
                        calls = trace @ [CallGetProfile, CallPlay], spawned = th\<rparr>)))
      else
        \<lparr>tr_result = Some r, status = ''recognized'',
         tr_app = self\<lparr>last_recognition_time := (last_recognition_time self)(person_id r \<mapsto> now)\<rparr>,
         calls = trace, spawned = None\<rparr>)"

definition process_frame :: "tick_env \<Rightarrow> app \<Rightarrow> real \<Rightarrow> tick_result" where
  "process_frame env self now =
     (if \<not> face_detector_present self then
        \<lparr>tr_result = None, status = ''error'', tr_app = self, calls = [], spawned = None\<rparr>
      else
        (case detect_faces env of
           Inl e \<Rightarrow>
             \<lparr>tr_result = None, status = ''error'', tr_app = self,
              calls = [CallDetect], spawned = None\<rparr>
         | Inr [] \<Rightarrow>
             \<lparr>tr_result = None, status = ''ready'', tr_app = self,
              calls = [CallDetect], spawned = None\<rparr>
         | Inr (face_data # _) \<Rightarrow>
             if \<not> face_recognizer_present self then
               \<lparr>tr_result = None, status = ''unknown'', tr_app = self,
                calls = [CallDetect], spawned = None\<rparr>
             else
               (case extract_face_region env face_data of
                  Inl e \<Rightarrow>
                    \<lparr>tr_result = None, status = ''unknown'', tr_app = self,
                     calls = [CallDetect, CallExtract], spawned = None\<rparr>
                | Inr face_region \<Rightarrow>
                    (case recognize env face_region of
                       Inl e \<Rightarrow>
                         \<lparr>tr_result = None, status = ''unknown'', tr_app = self,
                          calls = [CallDetect, CallExtract, CallRecognize], spawned = None\<rparr>
                     | Inr None \<Rightarrow>
                         \<lparr>tr_result = None, status = ''unknown'', tr_app = self,
                          calls = [CallDetect, CallExtract, CallRecognize], spawned = None\<rparr>
                     | Inr (Some r) \<Rightarrow>
                         if is_known r then
                           (if should_play_message self (person_id r) now
                            then announce env self r now [CallDetect, CallExtract, CallRecognize]
                            else \<lparr>tr_result = Some r, status = ''recognized'', tr_app = self,
                                  calls = [CallDetect, CallExtract, CallRecognize],
                                  spawned = None\<rparr>)
                         else
                           \<lparr>tr_result = None, status = ''unknown'', tr_app = self,
                            calls = [CallDetect, CallExtract, CallRecognize],
                            spawned = None\<rparr>))))"

text \<open>
  The announcement system: the polling loop calls \<^verbatim>\<open>process_frame\<close>, and the playback
  threads begin and end playing concurrently with it. A thread is started inside
  \<^verbatim>\<open>play_voice_message\<close>, so it may run its first part (up to
  \<^verbatim>\<open>pygame.mixer.music.play()\<close>, setting \<^verbatim>\<open>is_playing\<close>) before the tick that started it
  returns: the third argument of \<open>Tick\<close> says so, giving \<open>file_exists\<close> and \<open>play_raises\<close>
  of that first part, and is \<open>None\<close> when the thread gets to run only after the tick, at
  a later \<open>PlaybackBegin\<close>. The first part of the thread writes fields of the audio
  manager only and the rest of \<^verbatim>\<open>process_frame\<close> writes \<^verbatim>\<open>last_recognition_time\<close> only, so
  their order inside the tick does not matter.
\<close>

record system =
  sys_app :: app
  threads :: "(string \<times> string option) list"

datatype event =
    Tick tick_env real "(bool \<times> bool) option"
  | PlaybackBegin bool bool real
  | PlaybackEnd

fun step :: "event \<Rightarrow> system \<Rightarrow> system" where
  "step (Tick env now begun) s =
     (let res = process_frame env (sys_app s) now in
      case spawned res of
        None \<Rightarrow> \<lparr>sys_app = tr_app res, threads = threads s\<rparr>
      | Some th \<Rightarrow>
          (case begun of
             None \<Rightarrow> \<lparr>sys_app = tr_app res, threads = threads s @ [th]\<rparr>
           | Some (file_exists, play_raises) \<Rightarrow>
               \<lparr>sys_app = (tr_app res)\<lparr>audio_manager :=
                    map_option (playback_begin file_exists play_raises th now)
                      (audio_manager (tr_app res))\<rparr>,
                threads = threads s\<rparr>))"
| "step (PlaybackBegin file_exists play_raises now) s =
     (case threads s of
        [] \<Rightarrow> s
      | th # rest \<Rightarrow>
          \<lparr>sys_app = (sys_app s)\<lparr>audio_manager :=
               map_option (playback_begin file_exists play_raises th now)
                 (audio_manager (sys_app s))\<rparr>,
           threads = rest\<rparr>)"
| "step PlaybackEnd s =
     s\<lparr>sys_app := (sys_app s)\<lparr>audio_manager :=
          map_option playback_end (audio_manager (sys_app s))\<rparr>\<rparr>"

definition run_events :: "event list \<Rightarrow> system \<Rightarrow> system" where
  "run_events evs s = fold step evs s"

text \<open>The busy flag of the system: an announcement is in audible progress.\<close>

definition audio_busy :: "system \<Rightarrow> bool" where
  "audio_busy s \<longleftrightarrow>
     (case audio_manager (sys_app s) of None \<Rightarrow> False | Some am \<Rightarrow> is_playing am)"

section \<open>The simplified application (app_simple.py)\<close>

text \<open>
  \<^verbatim>\<open>SimpleAudioManager.is_currently_playing\<close> and
  \<^verbatim>\<open>MemoryMirrorApp.should_play_voice_message\<close> of app_simple.py; \<open>mixer_busy\<close> is the outcome
  of \<^verbatim>\<open>pygame.mixer.music.get_busy()\<close>.
\<close>

record simple_app =
  simple_audio_enabled :: bool
  last_voice_time :: "string \<rightharpoonup> real"
  voice_cooldown :: real

definition is_currently_playing :: "simple_app \<Rightarrow> py_exception + bool \<Rightarrow> bool" where
  "is_currently_playing self mixer_busy =
     (if \<not> simple_audio_enabled self then False
      else case mixer_busy of Inl _ \<Rightarrow> False | Inr b \<Rightarrow> b)"

definition should_play_voice_message ::
  "simple_app \<Rightarrow> py_exception + bool \<Rightarrow> string \<Rightarrow> real \<Rightarrow> bool" where
  "should_play_voice_message self mixer_busy pid current_time =
     (let last_time = (case last_voice_time self pid of None \<Rightarrow> 0 | Some t \<Rightarrow> t);
          time_passed = (current_time - last_time > voice_cooldown self);
          not_playing = (\<not> is_currently_playing self mixer_busy)
      in time_passed \<and> not_playing)"


section \<open>Sample inputs for the application\<close>

text \<open>An idle or playing audio manager with cooldown 30; an application with every
  collaborator present and the given cooldown record; the collaborators' answers of a tick
  in which the detector returns \<open>faces\<close> and the matcher recognizes \<open>p\<close>; one detected
  face.\<close>

abbreviation sample_audio :: "bool \<Rightarrow> audio_manager" where
  "sample_audio playing \<equiv>
     \<lparr>audio_enabled = True, message_cooldown = 30, last_played = Map.empty,
      is_playing = playing, current_audio_file = None\<rparr>"

abbreviation sample_app :: "(string \<rightharpoonup> real) \<Rightarrow> app" where
  "sample_app lrt \<equiv>
     \<lparr>face_detector_present = True, face_recognizer_present = True,
      person_database_present = True, audio_manager = Some (sample_audio False),
      last_recognition_time = lrt, recognition_cooldown = 30\<rparr>"

abbreviation sample_tick :: "face_info list \<Rightarrow> string \<Rightarrow> tick_env" where
  "sample_tick faces p \<equiv>
     \<lparr>detect_faces = Inr faces,
      extract_face_region = (\<lambda>f. Inr (Some \<lparr>nd_size = 76800\<rparr>)),
      recognize = (\<lambda>img. Inr (Some (sample_result p))),
      get_person_profile =
        (\<lambda>i. Inr (Some \<lparr>voice_message = ''Hello'', language_preference = ''en''\<rparr>)),
      audio = \<lparr>pygame_available = True, mixer_stop = Inr (),
               generate_speech = (\<lambda>m l. Inr (Some ''tts.mp3''))\<rparr>\<rparr>"

abbreviation one_face :: "face_info list" where
  "one_face \<equiv> [\<lparr>face_x = 10, face_y = 10, face_width = 100, face_height = 100\<rparr>]"

section \<open>Properties of RecognitionCache\<close>

lemma keys_remove_entry: "keys (remove_entry k c) = keys c - {k}"
  by (auto simp: keys_def remove_entry_def AList.delete_eq image_iff)

lemma inv_remove_entry: "cache_inv c \<Longrightarrow> cache_inv (remove_entry k c)"
  unfolding cache_inv_def keys_remove_entry
  by (auto simp: remove_entry_def distinct_delete)

lemma length_remove_entry_le: "length (cache (remove_entry k c)) \<le> length (cache c)"
  by (simp add: remove_entry_def AList.delete_eq)

lemma delete_absent: "k \<notin> fst ` set al \<Longrightarrow> AList.delete k al = al"
  by (induction al) auto

lemma length_delete_in:
  "distinct (map fst al) \<Longrightarrow> k \<in> fst ` set al \<Longrightarrow> Suc (length (AList.delete k al)) = length al"
  by (induction al) (auto simp: delete_absent)

lemma length_update:
  "length (AList.update k v al) = (if k \<in> fst ` set al then length al else Suc (length al))"
  by (induction al) (auto simp: image_iff)

lemma keys_fold_remove: "keys (fold remove_entry ks c) = keys c - set ks"
  by (induction ks arbitrary: c) (auto simp: keys_remove_entry)


lemma length_fold_remove_le: "length (cache (fold remove_entry ks c)) \<le> length (cache c)"
proof (induction ks arbitrary: c)
  case Nil show ?case by simp
next
  case (Cons k ks)
  have "length (cache (fold remove_entry ks (remove_entry k c))) \<le> length (cache (remove_entry k c))"
    by (rule Cons.IH)
  also have "\<dots> \<le> length (cache c)" by (rule length_remove_entry_le)
  finally show ?case by simp
qed

lemma max_size_remove_entry [simp]: "max_size (remove_entry k c) = max_size c"
  by (simp add: remove_entry_def)

lemma max_size_fold_remove [simp]: "max_size (fold remove_entry ks c) = max_size c"
  by (induction ks arbitrary: c) auto

lemma inv_nonempty_order: "cache_inv c \<Longrightarrow> cache c \<noteq> [] \<Longrightarrow> access_order c \<noteq> []"
  by (cases "cache c") (auto simp: cache_inv_def keys_def)

lemma hd_order_in_keys: "cache_inv c \<Longrightarrow> access_order c = k # rest \<Longrightarrow> k \<in> keys c"
  by (auto simp: cache_inv_def)

lemma evict_lru_Cons: "access_order c = k # rest \<Longrightarrow> evict_lru c = remove_entry k c"
  by (simp add: evict_lru_def)

lemma inv_evict_lru: "cache_inv c \<Longrightarrow> cache_inv (evict_lru c)"
  by (cases "access_order c") (auto simp: evict_lru_def inv_remove_entry)

lemma length_evict_lru:
  assumes "cache_inv c" "cache c \<noteq> []"
  shows "Suc (length (cache (evict_lru c))) = length (cache c)"
proof -
  from assms obtain k rest where ao: "access_order c = k # rest"
    using inv_nonempty_order by (cases "access_order c") auto
  with assms have "k \<in> fst ` set (cache c)"
    using hd_order_in_keys by (simp add: keys_def)
  moreover from assms have "distinct (map fst (cache c))" by (simp add: cache_inv_def)
  ultimately show ?thesis
    using ao by (simp add: evict_lru_def remove_entry_def length_delete_in)
qed

lemma max_size_evict_lru [simp]: "max_size (evict_lru c) = max_size c"
  by (cases "access_order c") (auto simp: evict_lru_def)

lemma keys_touch [simp]: "keys (touch fh c) = keys c"
  by (simp add: touch_def keys_def)

lemma keys_cache_update [simp]:
  "keys (c\<lparr>cache := AList.update fh e (cache c)\<rparr>) = insert fh (keys c)"
  by (simp add: keys_def dom_update)

lemma inv_store:
  assumes "cache_inv c"
  shows "cache_inv (touch fh (c\<lparr>cache := AList.update fh e (cache c)\<rparr>))"
proof -
  from assms have d: "distinct (map fst (cache c))" and a: "distinct (access_order c)"
    and s: "set (access_order c) = keys c"
    by (simp_all add: cache_inv_def)
  have "distinct (remove1 fh (access_order c) @ [fh])"
    using a by simp
  moreover have "set (remove1 fh (access_order c) @ [fh]) = insert fh (keys c)"
    using a s by auto
  ultimately show ?thesis
    using d by (simp add: cache_inv_def touch_def distinct_update keys_def dom_update)
qed

lemma inv_last_cleanup [simp]: "cache_inv (c\<lparr>last_cleanup := t\<rparr>) = cache_inv c"
  by (simp add: cache_inv_def keys_def)


lemma length_maybe_cleanup_le: "length (cache (maybe_cleanup now c)) \<le> length (cache c)"
  by (simp add: maybe_cleanup_def cleanup_expired_def length_fold_remove_le)

lemma max_size_maybe_cleanup [simp]: "max_size (maybe_cleanup now c) = max_size c"
  by (simp add: maybe_cleanup_def cleanup_expired_def)


lemma max_size_put [simp]: "max_size (put fh r now c) = max_size c"
  by (simp add: put_def Let_def touch_def)


lemma inv_counters [simp]:
  "cache_inv (c\<lparr>total_requests := n\<rparr>) = cache_inv c"
  "cache_inv (c\<lparr>miss_count := n\<rparr>) = cache_inv c"
  "cache_inv (c\<lparr>hit_count := n\<rparr>) = cache_inv c"
  by (simp_all add: cache_inv_def keys_def)




lemma max_size_get [simp]: "max_size (snd (get fh now c)) = max_size c"
  by (auto simp: get_def Let_def touch_def split: option.splits)



lemma max_size_invalidate [simp]: "max_size (invalidate pid c) = max_size c"
  by (cases pid) (auto simp: invalidate_def)





lemma put_unfold:
  "put fh r now c =
     maybe_cleanup now (touch fh
       ((if int (length (cache c)) \<ge> max_size c then evict_lru c else c)
          \<lparr>cache := AList.update fh (new_entry fh r now)
             (cache (if int (length (cache c)) \<ge> max_size c then evict_lru c else c))\<rparr>))"
  by (simp add: put_def Let_def)

lemma sweep_due_touch [simp]: "sweep_due now (touch fh c) = sweep_due now c"
  by (simp add: sweep_due_def touch_def)

lemma sweep_due_cache_upd [simp]: "sweep_due now (c\<lparr>cache := al\<rparr>) = sweep_due now c"
  by (simp add: sweep_due_def)

lemma sweep_due_evict [simp]: "sweep_due now (evict_lru c) = sweep_due now c"
  by (cases "access_order c") (auto simp: sweep_due_def evict_lru_def remove_entry_def)


lemma sweep_due_put_store [simp]: "sweep_due now (put_store fh r now c) = sweep_due now c"
  by (simp add: put_store_def Let_def)





lemma keys_last_cleanup [simp]: "keys (c\<lparr>last_cleanup := t\<rparr>) = keys c"
  by (simp add: keys_def)

lemma keys_maybe_cleanup_subset: "keys (maybe_cleanup now c) \<subseteq> keys c"
  by (auto simp: maybe_cleanup_def cleanup_expired_def keys_fold_remove)

lemma evict_front:
  assumes "access_order c = k # rest"
  shows "evict_lru c = remove_entry k c" "keys (evict_lru c) = keys c - {k}"
    "access_order (evict_lru c) = rest"
  using assms by (simp_all add: evict_lru_def keys_remove_entry, simp add: remove_entry_def)



lemma run_ops_Cons [simp]: "run_ops (op # ops) c = run_ops ops (apply_op op c)"
  by (simp add: run_ops_def)

lemma run_ops_Nil [simp]: "run_ops [] c = c"
  by (simp add: run_ops_def)

lemma run_ops_snoc: "run_ops (ops @ [op]) c = apply_op op (run_ops ops c)"
  by (simp add: run_ops_def)


lemma put_keys_snoc: "put_keys (ops @ [Put fh r now]) = put_keys ops @ [fh]"
  by (induction ops rule: put_keys.induct) auto





lemma init_simps [simp]:
  "keys (init_cache ms ttl t0) = {}"
  "cache (init_cache ms ttl t0) = []"
  "max_size (init_cache ms ttl t0) = ms"
  by (simp_all add: keys_def init_cache_def)



lemmas cache_eval =
  run_ops_def put_def get_def Let_def evict_lru_def remove_entry_def touch_def
  maybe_cleanup_def sweep_due_def cleanup_expired_def expired_keys_def is_expired_def
  init_cache_def keys_def invalidate_def new_entry_def put_store_def



lemma map_of_remove_entry:
  "map_of (cache (remove_entry k c)) fh = (if fh = k then None else map_of (cache c) fh)"
  by (simp add: remove_entry_def delete_conv)

lemma map_of_fold_remove:
  "fh \<notin> set ks \<Longrightarrow> map_of (cache (fold remove_entry ks c)) fh = map_of (cache c) fh"
  by (induction ks arbitrary: c) (auto simp: map_of_remove_entry)

lemma ttl_remove_entry [simp]: "ttl_seconds (remove_entry k c) = ttl_seconds c"
  by (simp add: remove_entry_def)

lemma expired_keys_mem:
  "fh \<in> set (expired_keys now c) \<longleftrightarrow>
     (\<exists>e'. (fh, e') \<in> set (cache c) \<and> is_expired e' (ttl_seconds c) now)"
  unfolding expired_keys_def by force

lemma expired_keys_iff:
  assumes "distinct (map fst (cache c))" "map_of (cache c) fh = Some e"
  shows "fh \<in> set (expired_keys now c) \<longleftrightarrow> is_expired e (ttl_seconds c) now"
proof -
  have u: "e' = e" if "(fh, e') \<in> set (cache c)" for e'
  proof -
    from assms(1) that have "map_of (cache c) fh = Some e'" by (rule map_of_is_SomeI)
    with assms(2) show ?thesis by simp
  qed
  have m: "(fh, e) \<in> set (cache c)" using assms(2) by (rule map_of_SomeD)
  show ?thesis
  proof
    assume "fh \<in> set (expired_keys now c)"
    then obtain e' where "(fh, e') \<in> set (cache c)" "is_expired e' (ttl_seconds c) now"
      unfolding expired_keys_mem by blast
    with u show "is_expired e (ttl_seconds c) now" by blast
  next
    assume "is_expired e (ttl_seconds c) now"
    with m show "fh \<in> set (expired_keys now c)"
      unfolding expired_keys_mem by blast
  qed
qed

lemma put_stores:
  assumes inv: "cache_inv c" and ttl: "0 \<le> ttl_seconds c"
  shows "map_of (cache (put fh r now c)) fh = Some (new_entry fh r now)"
proof -
  define c1 where "c1 = (if int (length (cache c)) \<ge> max_size c then evict_lru c else c)"
  define c3 where "c3 = touch fh (c1\<lparr>cache := AList.update fh (new_entry fh r now) (cache c1)\<rparr>)"
  have p: "put fh r now c = maybe_cleanup now c3"
    by (simp add: put_unfold c1_def c3_def)
  have "cache_inv c1" using inv by (simp add: c1_def inv_evict_lru)
  then have inv3: "cache_inv c3" unfolding c3_def by (rule inv_store)
  have m3: "map_of (cache c3) fh = Some (new_entry fh r now)"
    by (simp add: c3_def touch_def update_conv')
  have t3: "ttl_seconds c3 = ttl_seconds c"
    by (cases "access_order c") (auto simp: c3_def c1_def touch_def evict_lru_def)
  have "\<not> is_expired (new_entry fh r now) (ttl_seconds c3) now"
    using ttl by (simp add: is_expired_def new_entry_def t3)
  with inv3 m3 have "fh \<notin> set (expired_keys now c3)"
    by (simp add: expired_keys_iff cache_inv_def)
  then show ?thesis
    using m3 by (simp add: p maybe_cleanup_def cleanup_expired_def map_of_fold_remove)
qed

lemma get_fresh:
  assumes "map_of (cache c) fh = Some e" "\<not> is_expired e (ttl_seconds c) now"
  shows "fst (get fh now c) = Some (result e)"
    "hit_count (snd (get fh now c)) = hit_count c + 1"
    "map_of (cache (snd (get fh now c))) fh = Some (e\<lparr>e_hit_count := e_hit_count e + 1\<rparr>)"
  using assms by (simp_all add: get_def Let_def touch_def update_conv')

lemma get_expired:
  assumes inv: "cache_inv c" and e: "map_of (cache c) fh = Some e"
    and x: "is_expired e (ttl_seconds c) now"
  shows "fst (get fh now c) = None"
    "fh \<notin> keys (snd (get fh now c))"
    "fh \<notin> set (access_order (snd (get fh now c)))"
    "miss_count (snd (get fh now c)) = miss_count c + 1"
    "total_requests (snd (get fh now c)) = total_requests c + 1"
proof -
  let ?c1 = "c\<lparr>total_requests := total_requests c + 1\<rparr>"
  have g: "get fh now c = (None, (remove_entry fh ?c1)\<lparr>miss_count := miss_count (remove_entry fh ?c1) + 1\<rparr>)"
    using e x by (simp add: get_def Let_def)
  from inv have "cache_inv (remove_entry fh ?c1)" by (simp add: inv_remove_entry)
  moreover have "fh \<notin> keys (remove_entry fh ?c1)" by (simp add: keys_remove_entry)
  ultimately have "fh \<notin> set (access_order (remove_entry fh ?c1))"
    by (simp add: cache_inv_def)
  then show "fh \<notin> set (access_order (snd (get fh now c)))" by (simp add: g)
  show "fst (get fh now c) = None" by (simp add: g)
  show "fh \<notin> keys (snd (get fh now c))"
    by (simp add: g keys_def remove_entry_def AList.delete_eq image_iff) 
  show "miss_count (snd (get fh now c)) = miss_count c + 1"
    by (simp add: g remove_entry_def)
  show "total_requests (snd (get fh now c)) = total_requests c + 1"
    by (simp add: g remove_entry_def)
qed

text \<open>
  Claim C2. Let the cache hold, under fingerprint \<open>fh\<close>, an entry \<open>e\<close> stored at time
  \<open>e_timestamp e\<close>. A \<^verbatim>\<open>get\<close> at time \<open>e_timestamp e + ttl - eps\<close> (\<open>eps > 0\<close>) is a hit
  returning the stored result, a \<^verbatim>\<open>get\<close> at exactly \<open>e_timestamp e + ttl\<close> is still a hit
  (the comparison is strict), and a \<^verbatim>\<open>get\<close> at \<open>e_timestamp e + ttl + eps\<close> returns nothing,
  removes the fingerprint from the map and from the access order and adds one to the
  miss counter. A \<^verbatim>\<open>put\<close> at time \<open>T\<close> stores exactly such an entry with timestamp \<open>T\<close>
  (for a non-negative ttl, so that the sweep inside that \<^verbatim>\<open>put\<close> keeps it).
\<close>

theorem C2_ttl_boundary:
  assumes "cache_inv c" "map_of (cache c) fh = Some e"
  shows
    "(0 < eps \<longrightarrow>
        fst (get fh (e_timestamp e + real_of_int (ttl_seconds c) - eps) c) = Some (result e)) \<and>
     fst (get fh (e_timestamp e + real_of_int (ttl_seconds c)) c) = Some (result e) \<and>
     (0 < eps \<longrightarrow>
        (let (res, c') = get fh (e_timestamp e + real_of_int (ttl_seconds c) + eps) c in
           res = None \<and> fh \<notin> keys c' \<and> fh \<notin> set (access_order c') \<and>
           miss_count c' = miss_count c + 1)) \<and>
     (0 \<le> ttl_seconds c \<longrightarrow>
        map_of (cache (put fh r T c)) fh
          = Some \<lparr>result = r, e_timestamp = T, frame_hash = fh, e_hit_count = 0\<rparr>)"
proof (intro conjI impI)
  assume "0 < eps"
  then have "\<not> is_expired e (ttl_seconds c) (e_timestamp e + real_of_int (ttl_seconds c) - eps)"
    by (simp add: is_expired_def)
  with assms(2) show "fst (get fh (e_timestamp e + real_of_int (ttl_seconds c) - eps) c) = Some (result e)"
    by (rule get_fresh)
next
  have "\<not> is_expired e (ttl_seconds c) (e_timestamp e + real_of_int (ttl_seconds c))"
    by (simp add: is_expired_def)
  with assms(2) show "fst (get fh (e_timestamp e + real_of_int (ttl_seconds c)) c) = Some (result e)"
    by (rule get_fresh)
next
  assume "0 < eps"
  then have x: "is_expired e (ttl_seconds c) (e_timestamp e + real_of_int (ttl_seconds c) + eps)"
    by (simp add: is_expired_def)
  from get_expired[OF assms x]
  show "let (res, c') = get fh (e_timestamp e + real_of_int (ttl_seconds c) + eps) c in
           res = None \<and> fh \<notin> keys c' \<and> fh \<notin> set (access_order c') \<and>
           miss_count c' = miss_count c + 1"
    by (simp add: split_beta)
next
  assume "0 \<le> ttl_seconds c"
  with assms(1) show "map_of (cache (put fh r T c)) fh
          = Some \<lparr>result = r, e_timestamp = T, frame_hash = fh, e_hit_count = 0\<rparr>"
    using put_stores[of c fh r T] by (simp add: new_entry_def)
qed

text \<open>
  Claim C10. When the cache holds exactly \<open>max_size\<close> entries and \<open>fh\<close> is one of them,
  \<^verbatim>\<open>put fh\<close> still evicts the front \<open>k\<close> of the access order. If \<open>k\<close> is another
  fingerprint, it is gone afterwards and the cache holds fewer than \<open>max_size\<close> entries;
  when no periodic sweep is due, the keys afterwards are exactly the old keys without
  \<open>k\<close> (plus \<open>fh\<close>), and the size is \<open>max_size - 1\<close>.
\<close>

theorem C10_put_existing_at_capacity:
  assumes inv: "cache_inv c" and present: "fh \<in> keys c"
    and full: "int (length (cache c)) = max_size c"
  shows "\<exists>k rest. access_order c = k # rest \<and> k \<in> keys c \<and>
     (k \<noteq> fh \<longrightarrow> k \<notin> keys (put fh r now c) \<and>
        int (length (cache (put fh r now c))) < max_size c) \<and>
     (\<not> sweep_due now c \<longrightarrow>
        keys (put fh r now c) = insert fh (keys c - {k}) \<and>
        (k \<noteq> fh \<longrightarrow> int (length (cache (put fh r now c))) = max_size c - 1))"
proof -
  from present have ne: "cache c \<noteq> []" by (auto simp: keys_def)
  with inv obtain k rest where ao: "access_order c = k # rest"
    using inv_nonempty_order by (cases "access_order c") auto
  from inv ao have kin: "k \<in> keys c" by (rule hd_order_in_keys)
  define c3 where "c3 = touch fh ((evict_lru c)\<lparr>cache := AList.update fh (new_entry fh r now) (cache (evict_lru c))\<rparr>)"
  have p: "put fh r now c = maybe_cleanup now c3"
    using full by (simp add: put_unfold c3_def)
  have k3: "keys c3 = insert fh (keys c - {k})"
    by (simp add: c3_def evict_front(2)[OF ao])
  have len_e: "Suc (length (cache (evict_lru c))) = length (cache c)"
    using inv ne by (rule length_evict_lru)
  have l3: "k \<noteq> fh \<Longrightarrow> length (cache c3) = length (cache (evict_lru c))"
    using present evict_front(2)[OF ao]
    by (simp add: c3_def touch_def length_update keys_def)
  have a: "k \<noteq> fh \<Longrightarrow> k \<notin> keys (put fh r now c)"
    using keys_maybe_cleanup_subset[of now c3] k3 by (auto simp: p)
  have b: "k \<noteq> fh \<Longrightarrow> int (length (cache (put fh r now c))) < max_size c"
    using length_maybe_cleanup_le[of now c3] l3 len_e full by (simp add: p)
  have q: "\<not> sweep_due now c \<Longrightarrow> put fh r now c = c3"
    by (simp add: p maybe_cleanup_def c3_def)
  have c: "\<not> sweep_due now c \<Longrightarrow> keys (put fh r now c) = insert fh (keys c - {k})"
    using q k3 by simp
  have d: "\<not> sweep_due now c \<Longrightarrow> k \<noteq> fh \<Longrightarrow> int (length (cache (put fh r now c))) = max_size c - 1"
    using q l3 len_e full by simp
  from ao kin a b c d show ?thesis by blast
qed

text \<open>
  C10 at a concrete input: capacity 2 holding a and b; storing b again evicts a and
  leaves one entry.
\<close>

theorem C10_witness:
  "cache_inv (run_ops [Put ''a'' (sample_result ''alice'') 1,
                       Put ''b'' (sample_result ''bob'') 2] (init_cache 2 30 0)) \<and>
   keys (run_ops [Put ''a'' (sample_result ''alice'') 1,
                  Put ''b'' (sample_result ''bob'') 2] (init_cache 2 30 0)) = {''a'', ''b''} \<and>
   access_order (run_ops [Put ''a'' (sample_result ''alice'') 1,
                  Put ''b'' (sample_result ''bob'') 2] (init_cache 2 30 0)) = [''a'', ''b''] \<and>
   keys (put ''b'' (sample_result ''bob'') 3
          (run_ops [Put ''a'' (sample_result ''alice'') 1,
                  Put ''b'' (sample_result ''bob'') 2] (init_cache 2 30 0))) = {''b''} \<and>
   length (cache (put ''b'' (sample_result ''bob'') 3
          (run_ops [Put ''a'' (sample_result ''alice'') 1,
                  Put ''b'' (sample_result ''bob'') 2] (init_cache 2 30 0)))) = 1"
  using C10_put_existing_at_capacity[of "run_ops [Put ''a'' (sample_result ''alice'') 1,
                  Put ''b'' (sample_result ''bob'') 2] (init_cache 2 30 0)" "''b''"
                  "sample_result ''bob''" 3]
  by (simp add: cache_eval cache_inv_def)

text \<open>
  C2 at a concrete input: ttl 30, entry stored at time 100; lookups at 129.9 and 130 hit,
  a lookup at 130.1 misses and empties the cache.
\<close>

theorem C2_witness:
  "cache_inv (put ''a'' (sample_result ''alice'') 100 (init_cache 2 30 0)) \<and>
   fst (get ''a'' 129.9 (put ''a'' (sample_result ''alice'') 100 (init_cache 2 30 0)))
     = Some (sample_result ''alice'') \<and>
   fst (get ''a'' 130 (put ''a'' (sample_result ''alice'') 100 (init_cache 2 30 0)))
     = Some (sample_result ''alice'') \<and>
   fst (get ''a'' 130.1 (put ''a'' (sample_result ''alice'') 100 (init_cache 2 30 0))) = None \<and>
   cache (snd (get ''a'' 130.1 (put ''a'' (sample_result ''alice'') 100 (init_cache 2 30 0)))) = [] \<and>
   miss_count (snd (get ''a'' 130.1 (put ''a'' (sample_result ''alice'') 100 (init_cache 2 30 0)))) = 1"
  using C2_ttl_boundary[of "put ''a'' (sample_result ''alice'') 100 (init_cache 2 30 0)" "''a''"
      "\<lparr>result = sample_result ''alice'', e_timestamp = 100, frame_hash = ''a'', e_hit_count = 0\<rparr>"
      "0.1" "sample_result ''alice''" 100]
  by (simp add: cache_eval cache_inv_def)

section \<open>Properties of FaceRecognizer\<close>

text \<open>
  Claim C5. For a finite distance \<open>d\<close>, \<^verbatim>\<open>_distance_to_confidence\<close> returns
  \<open>max 0 (1 - d)\<close> for the cosine metric, \<open>max 0 (1 - d / 2)\<close> for euclidean,
  \<open>max 0 (1 - d)\<close> for euclidean_l2 and for any other metric name, each capped at 1 by the
  final \<^verbatim>\<open>min(1.0, confidence)\<close>; for the non-negative \<open>d\<close> that a distance is, the cap
  changes nothing. The result always lies in \<open>[0, 1]\<close>. For cosine, distance 0 gives 1,
  distance 1 gives 0 and every distance above 1 gives 0.
\<close>

theorem C5_distance_to_confidence:
  "(distance_metric self = ''cosine'' \<longrightarrow>
      distance_to_confidence self (Finite d) = min 1 (max 0 (1 - d))) \<and>
   (distance_metric self = ''euclidean'' \<longrightarrow>
      distance_to_confidence self (Finite d) = min 1 (max 0 (1 - d / 2))) \<and>
   (distance_metric self = ''euclidean_l2'' \<longrightarrow>
      distance_to_confidence self (Finite d) = min 1 (max 0 (1 - d))) \<and>
   (distance_metric self \<notin> {''cosine'', ''euclidean'', ''euclidean_l2''} \<longrightarrow>
      distance_to_confidence self (Finite d) = min 1 (max 0 (1 - d))) \<and>
   (0 \<le> d \<longrightarrow>
      distance_to_confidence self (Finite d) =
        (if distance_metric self = ''euclidean'' then max 0 (1 - d / 2) else max 0 (1 - d))) \<and>
   0 \<le> distance_to_confidence self x \<and> distance_to_confidence self x \<le> 1 \<and>
   (distance_metric self = ''cosine'' \<longrightarrow>
      distance_to_confidence self (Finite 0) = 1 \<and>
      distance_to_confidence self (Finite 1) = 0 \<and>
      (1 < d \<longrightarrow> distance_to_confidence self (Finite d) = 0))"
proof -
  have range: "0 \<le> distance_to_confidence self x \<and> distance_to_confidence self x \<le> 1"
    by (cases x) (simp_all add: distance_to_confidence_def Let_def)
  have nonneg: "0 \<le> d \<longrightarrow>
      distance_to_confidence self (Finite d) =
        (if distance_metric self = ''euclidean'' then max 0 (1 - d / 2) else max 0 (1 - d))"
    by (simp add: distance_to_confidence_def Let_def min_def max_def)
  have cos: "distance_metric self = ''cosine'' \<longrightarrow>
      distance_to_confidence self (Finite 0) = 1 \<and>
      distance_to_confidence self (Finite 1) = 0 \<and>
      (1 < d \<longrightarrow> distance_to_confidence self (Finite d) = 0)"
    by (simp add: distance_to_confidence_def Let_def)
  show ?thesis
    using range nonneg cos
    by (simp add: distance_to_confidence_def Let_def)
qed

text \<open>
  C5 at concrete inputs: cosine at 0, 1, 1.5 and 0.25; euclidean at 0.5; euclidean_l2 and
  an unknown metric at 0.25.
\<close>

theorem C5_witness:
  "distance_to_confidence (cosine_recognizer 0.6 []) (Finite 0) = 1 \<and>
   distance_to_confidence (cosine_recognizer 0.6 []) (Finite 1) = 0 \<and>
   distance_to_confidence (cosine_recognizer 0.6 []) (Finite 1.5) = 0 \<and>
   distance_to_confidence (cosine_recognizer 0.6 []) (Finite 0.25) = 0.75 \<and>
   distance_to_confidence ((cosine_recognizer 0.6 [])\<lparr>distance_metric := ''euclidean''\<rparr>) (Finite 0.5) = 0.75 \<and>
   distance_to_confidence ((cosine_recognizer 0.6 [])\<lparr>distance_metric := ''euclidean_l2''\<rparr>) (Finite 0.25) = 0.75 \<and>
   distance_to_confidence ((cosine_recognizer 0.6 [])\<lparr>distance_metric := ''manhattan''\<rparr>) (Finite 0.25) = 0.75"
  using C5_distance_to_confidence[of "cosine_recognizer 0.6 []" "1.5" "Finite 0.25"]
    C5_distance_to_confidence[of "(cosine_recognizer 0.6 [])\<lparr>distance_metric := ''euclidean''\<rparr>" "0.5" PosInf]
    C5_distance_to_confidence[of "(cosine_recognizer 0.6 [])\<lparr>distance_metric := ''euclidean_l2''\<rparr>" "0.25" PosInf]
    C5_distance_to_confidence[of "(cosine_recognizer 0.6 [])\<lparr>distance_metric := ''manhattan''\<rparr>" "0.25" PosInf]
  by (simp add: distance_to_confidence_def)

lemma match_loop_step:
  assumes "listdir env pid = Inr files"
  shows "match_loop env (pid # rest) (bd, bp) =
     (case person_avg env pid of
        None \<Rightarrow> match_loop env rest (bd, bp)
      | Some a \<Rightarrow> if less_pyfloat a bd then match_loop env rest (Finite a, pid)
                  else match_loop env rest (bd, bp))"
  using assms by (simp add: person_avg_def Let_def)

lemma less_pyfloat_le: "\<not> less_pyfloat a bd \<Longrightarrow> less_pyfloat a' bd \<Longrightarrow> a' \<le> a"
  by (cases bd) auto

lemma less_pyfloat_trans: "a' < a \<Longrightarrow> less_pyfloat a bd \<Longrightarrow> less_pyfloat a' bd"
  by (cases bd) auto

lemma match_loop_post:
  assumes "\<forall>p\<in>set ps. \<exists>files. listdir env p = Inr files"
  shows "\<exists>bd' bp'. match_loop env ps (bd, bp) = Inr (bd', bp') \<and> loop_post env ps bd bp bd' bp'"
  using assms
proof (induction ps arbitrary: bd bp)
  case Nil
  then show ?case by (simp add: loop_post_def)
next
  case (Cons pid rest)
  then obtain files where ld: "listdir env pid = Inr files" by auto
  from Cons.prems have rest: "\<forall>p\<in>set rest. \<exists>files. listdir env p = Inr files" by simp
  note step = match_loop_step[OF ld, of rest bd bp]
  show ?case
  proof (cases "person_avg env pid")
    case None
    from Cons.IH[OF rest, of bd bp] obtain bd' bp' where
      r: "match_loop env rest (bd, bp) = Inr (bd', bp')" and p: "loop_post env rest bd bp bd' bp'"
      by blast
    from p None have "loop_post env (pid # rest) bd bp bd' bp'"
      unfolding loop_post_def by auto
    with r step None show ?thesis by simp
  next
    case (Some a)
    show ?thesis
    proof (cases "less_pyfloat a bd")
      case False
      from Cons.IH[OF rest, of bd bp] obtain bd' bp' where
        r: "match_loop env rest (bd, bp) = Inr (bd', bp')" and p: "loop_post env rest bd bp bd' bp'"
        by blast
      have "\<not> less_pyfloat a bd'"
      proof -
        from p consider "bd' = bd" | a' where "bd' = Finite a'" "less_pyfloat a' bd"
          unfolding loop_post_def by blast
        then show ?thesis
        proof cases
          case 1 with False show ?thesis by simp
        next
          case 2
          with False have "a' \<le> a" using less_pyfloat_le by blast
          with 2 show ?thesis by simp
        qed
      qed
      with p Some False have "loop_post env (pid # rest) bd bp bd' bp'"
        unfolding loop_post_def by auto
      with r step Some False show ?thesis by simp
    next
      case True
      from Cons.IH[OF rest, of "Finite a" pid] obtain bd' bp' where
        r: "match_loop env rest (Finite a, pid) = Inr (bd', bp')"
        and p: "loop_post env rest (Finite a) pid bd' bp'"
        by blast
      from p consider (same) "bd' = Finite a" "bp' = pid"
        | (better) p' a' where "p' \<in> set rest" "person_avg env p' = Some a'" "bd' = Finite a'"
            "bp' = p'" "a' < a"
        unfolding loop_post_def by auto
      then have "loop_post env (pid # rest) bd bp bd' bp'"
      proof cases
        case same
        with p Some True show ?thesis unfolding loop_post_def by auto
      next
        case better
        then have "less_pyfloat a' bd" using True less_pyfloat_trans by blast
        moreover have "\<not> less_pyfloat a bd'" using better by simp
        ultimately show ?thesis
          using p Some better unfolding loop_post_def by auto
      qed
      with r step Some True show ?thesis by simp
    qed
  qed
qed

lemma recognize_body_post:
  assumes "\<forall>p\<in>set (known_persons self). \<exists>files. listdir env p = Inr files"
  shows "\<exists>bd bp. recognize_body env self now =
      Inr \<lparr>person_id = (if distance_to_confidence self bd \<ge> confidence_threshold self then bp else ''unknown''),
           confidence = distance_to_confidence self bd,
           is_known = (distance_to_confidence self bd \<ge> confidence_threshold self),
           timestamp = now, distance = bd, model_name = fr_model_name self\<rparr> \<and>
      loop_post env (known_persons self) PosInf ''unknown'' bd bp"
proof -
  from match_loop_post[OF assms, of PosInf "''unknown''"] obtain bd bp where
    m: "match_loop env (known_persons self) (PosInf, ''unknown'') = Inr (bd, bp)"
    and p: "loop_post env (known_persons self) PosInf ''unknown'' bd bp" by blast
  from m have "recognize_body env self now =
      Inr \<lparr>person_id = (if distance_to_confidence self bd \<ge> confidence_threshold self then bp else ''unknown''),
           confidence = distance_to_confidence self bd,
           is_known = (distance_to_confidence self bd \<ge> confidence_threshold self),
           timestamp = now, distance = bd, model_name = fr_model_name self\<rparr>"
    by (simp add: recognize_body_def Let_def)
  with p show ?thesis by blast
qed

lemma recognize_face_body:
  assumes "deepface_available" "is_initialized self" "nd_size img \<noteq> 0"
    "recognize_body env self now = Inr r"
  shows "recognize_face deepface_available env self (Some img) now = Inr r"
  using assms by (simp add: recognize_face_def)

lemma d2c_PosInf [simp]: "distance_to_confidence self PosInf = 0"
  by (simp add: distance_to_confidence_def)

lemma recognize_face_listable:
  assumes "deepface_available" "is_initialized self" "nd_size img \<noteq> 0"
    and ld: "\<forall>p\<in>set (known_persons self). \<exists>files. listdir env p = Inr files"
  shows "(\<exists>r. recognize_face deepface_available env self (Some img) now = Inr r \<and>
     is_known r = (confidence r \<ge> confidence_threshold self) \<and>
     confidence r = distance_to_confidence self (distance r) \<and>
     (\<not> is_known r \<longrightarrow> person_id r = ''unknown'') \<and>
     ((\<forall>p\<in>set (known_persons self). person_avg env p = None) \<longrightarrow>
        distance r = PosInf \<and> confidence r = 0) \<and>
     ((\<exists>p\<in>set (known_persons self). person_avg env p \<noteq> None) \<longrightarrow>
        (\<exists>p\<in>set (known_persons self). \<exists>a. person_avg env p = Some a \<and> distance r = Finite a \<and>
           (\<forall>q\<in>set (known_persons self). \<forall>b. person_avg env q = Some b \<longrightarrow> a \<le> b) \<and>
           (is_known r \<longrightarrow> person_id r = p)))) \<and>
     confidence_threshold (init_recognizer cfg_model cfg_backend None cfg_metric) = 0.6"
proof -
  let ?ps = "known_persons self"
  from recognize_body_post[OF ld, of now] obtain bd bp where
    b: "recognize_body env self now =
      Inr \<lparr>person_id = (if distance_to_confidence self bd \<ge> confidence_threshold self then bp else ''unknown''),
           confidence = distance_to_confidence self bd,
           is_known = (distance_to_confidence self bd \<ge> confidence_threshold self),
           timestamp = now, distance = bd, model_name = fr_model_name self\<rparr>"
    and p: "loop_post env ?ps PosInf ''unknown'' bd bp" by blast
  define r where "r = \<lparr>person_id = (if distance_to_confidence self bd \<ge> confidence_threshold self then bp else ''unknown''),
           confidence = distance_to_confidence self bd,
           is_known = (distance_to_confidence self bd \<ge> confidence_threshold self),
           timestamp = now, distance = bd, model_name = fr_model_name self\<rparr>"
  have rf: "recognize_face deepface_available env self (Some img) now = Inr r"
    using assms(1-3) b unfolding r_def by (rule recognize_face_body)
  have f1: "is_known r = (confidence r \<ge> confidence_threshold self)"
    and f2: "confidence r = distance_to_confidence self (distance r)"
    and f3: "\<not> is_known r \<longrightarrow> person_id r = ''unknown''"
    by (simp_all add: r_def)
  have f4: "distance r = PosInf \<and> confidence r = 0"
    if none: "\<forall>p\<in>set ?ps. person_avg env p = None"
  proof -
    from p none have "bd = PosInf" unfolding loop_post_def by auto
    then show ?thesis by (simp add: r_def)
  qed
  have f5: "\<exists>p\<in>set ?ps. \<exists>a. person_avg env p = Some a \<and> distance r = Finite a \<and>
           (\<forall>q\<in>set ?ps. \<forall>b. person_avg env q = Some b \<longrightarrow> a \<le> b) \<and>
           (is_known r \<longrightarrow> person_id r = p)"
    if some: "\<exists>p\<in>set ?ps. person_avg env p \<noteq> None"
  proof -
    from p some obtain p' a where c: "p' \<in> set ?ps" "person_avg env p' = Some a"
      "bd = Finite a" "bp = p'"
      unfolding loop_post_def by auto
    from p c(3) have "\<forall>q\<in>set ?ps. \<forall>b. person_avg env q = Some b \<longrightarrow> a \<le> b"
      unfolding loop_post_def by auto
    with c show ?thesis by (auto simp: r_def)
  qed
  have f6: "confidence_threshold (init_recognizer cfg_model cfg_backend None cfg_metric) = 0.6"
    by (simp add: init_recognizer_def)
  from rf f1 f2 f3 f4 f5 have "\<exists>r. recognize_face deepface_available env self (Some img) now = Inr r \<and>
     is_known r = (confidence r \<ge> confidence_threshold self) \<and>
     confidence r = distance_to_confidence self (distance r) \<and>
     (\<not> is_known r \<longrightarrow> person_id r = ''unknown'') \<and>
     ((\<forall>p\<in>set ?ps. person_avg env p = None) \<longrightarrow>
        distance r = PosInf \<and> confidence r = 0) \<and>
     ((\<exists>p\<in>set ?ps. person_avg env p \<noteq> None) \<longrightarrow>
        (\<exists>p\<in>set ?ps. \<exists>a. person_avg env p = Some a \<and> distance r = Finite a \<and>
           (\<forall>q\<in>set ?ps. \<forall>b. person_avg env q = Some b \<longrightarrow> a \<le> b) \<and>
           (is_known r \<longrightarrow> person_id r = p)))" by blast
  with f6 show ?thesis by blast
qed

lemma match_loop_raises:
  assumes "\<exists>p\<in>set ps. \<exists>e. listdir env p = Inl e"
  shows "\<exists>e. match_loop env ps best = Inl e"
  using assms
proof (induction ps arbitrary: best)
  case Nil
  then show ?case by simp
next
  case (Cons pid rest)
  obtain bd bp where best: "best = (bd, bp)" by (cases best)
  show ?case
  proof (cases "listdir env pid")
    case (Inl e)
    then show ?thesis by (simp add: best)
  next
    case (Inr files)
    with Cons.prems have "\<exists>p\<in>set rest. \<exists>e. listdir env p = Inl e" by auto
    from Cons.IH[OF this] have "\<And>b. \<exists>e. match_loop env rest b = Inl e" by blast
    with Inr show ?thesis by (simp add: best Let_def)
  qed
qed

lemma recognize_face_unlistable:
  assumes "\<exists>p\<in>set (known_persons self). \<exists>e. listdir env p = Inl e"
  shows "recognize_face deepface_available env self face_image now = Inr (unknown_result now)"
proof -
  from match_loop_raises[OF assms, of "(PosInf, ''unknown'')"]
  obtain e where "match_loop env (known_persons self) (PosInf, ''unknown'') = Inl e" by blast
  then have "recognize_body env self now = Inl e" by (simp add: recognize_body_def)
  then show ?thesis by (simp add: recognize_face_def split: option.splits)
qed

text \<open>
  Claim C6 (as amended). Let the engine be available, the gallery initialised and the
  face image non-empty. If every enrolled person's gallery directory can be listed,
  \<^verbatim>\<open>recognize_face\<close> returns a result \<open>r\<close> with: \<open>is_known r\<close> exactly when
  \<open>confidence r \<ge> confidence_threshold\<close>; the confidence is the conversion of the reported
  distance; below the threshold the identity is \<open>''unknown''\<close> while confidence and
  distance are still reported; if some enrolled person has at least one successful
  comparison, the reported distance is the smallest average distance over all such
  persons, and a known result carries a person with that average; with no candidate the
  distance is infinite and the confidence 0. If listing the directory of some enrolled
  person raises, the result is the neutral one, whatever the distances of the other
  persons. The threshold is 0.6 when the configuration holds none.
\<close>

theorem C6_recognize_face:
  assumes "deepface_available" "is_initialized self" "nd_size img \<noteq> 0"
  shows "((\<forall>p\<in>set (known_persons self). \<exists>files. listdir env p = Inr files) \<longrightarrow>
     (\<exists>r. recognize_face deepface_available env self (Some img) now = Inr r \<and>
     is_known r = (confidence r \<ge> confidence_threshold self) \<and>
     confidence r = distance_to_confidence self (distance r) \<and>
     (\<not> is_known r \<longrightarrow> person_id r = ''unknown'') \<and>
     ((\<forall>p\<in>set (known_persons self). person_avg env p = None) \<longrightarrow>
        distance r = PosInf \<and> confidence r = 0) \<and>
     ((\<exists>p\<in>set (known_persons self). person_avg env p \<noteq> None) \<longrightarrow>
        (\<exists>p\<in>set (known_persons self). \<exists>a. person_avg env p = Some a \<and> distance r = Finite a \<and>
           (\<forall>q\<in>set (known_persons self). \<forall>b. person_avg env q = Some b \<longrightarrow> a \<le> b) \<and>
           (is_known r \<longrightarrow> person_id r = p))))) \<and>
     ((\<exists>p\<in>set (known_persons self). \<exists>e. listdir env p = Inl e) \<longrightarrow>
        recognize_face deepface_available env self (Some img) now = Inr (unknown_result now)) \<and>
     confidence_threshold (init_recognizer cfg_model cfg_backend None cfg_metric) = 0.6"
proof (intro conjI impI)
  assume "\<forall>p\<in>set (known_persons self). \<exists>files. listdir env p = Inr files"
  from recognize_face_listable[OF assms this, of now]
  show "\<exists>r. recognize_face deepface_available env self (Some img) now = Inr r \<and>
     is_known r = (confidence r \<ge> confidence_threshold self) \<and>
     confidence r = distance_to_confidence self (distance r) \<and>
     (\<not> is_known r \<longrightarrow> person_id r = ''unknown'') \<and>
     ((\<forall>p\<in>set (known_persons self). person_avg env p = None) \<longrightarrow>
        distance r = PosInf \<and> confidence r = 0) \<and>
     ((\<exists>p\<in>set (known_persons self). person_avg env p \<noteq> None) \<longrightarrow>
        (\<exists>p\<in>set (known_persons self). \<exists>a. person_avg env p = Some a \<and> distance r = Finite a \<and>
           (\<forall>q\<in>set (known_persons self). \<forall>b. person_avg env q = Some b \<longrightarrow> a \<le> b) \<and>
           (is_known r \<longrightarrow> person_id r = p)))"
    by blast
next
  assume "\<exists>p\<in>set (known_persons self). \<exists>e. listdir env p = Inl e"
  then show "recognize_face deepface_available env self (Some img) now = Inr (unknown_result now)"
    by (rule recognize_face_unlistable)
next
  show "confidence_threshold (init_recognizer cfg_model cfg_backend None cfg_metric) = 0.6"
    by (simp add: init_recognizer_def)
qed

text \<open>
  Claim C7. \<^verbatim>\<open>recognize_face\<close> returns a result on every input (no exception leaves it).
  If the engine is unavailable, the gallery is not initialised, or the face image is
  \<^verbatim>\<open>None\<close> or empty, or when the matching run itself raises, the result is the neutral
  one: person \<open>''unknown''\<close>, confidence 0, not known. A result that is known comes from a
  completed matching run with the engine available and the gallery initialised, with a
  confidence at or above the threshold.
\<close>

theorem C7_recognize_never_raises:
  "\<exists>r. recognize_face deepface_available env self face_image now = Inr r \<and>
     (\<not> deepface_available \<or> \<not> is_initialized self \<or> face_image = None \<or>
      (\<exists>img. face_image = Some img \<and> nd_size img = 0) \<longrightarrow> r = unknown_result now) \<and>
     ((\<exists>e. recognize_body env self now = Inl e) \<longrightarrow> r = unknown_result now) \<and>
     (is_known r \<longrightarrow>
        deepface_available \<and> is_initialized self \<and>
        (\<exists>img. face_image = Some img \<and> nd_size img \<noteq> 0) \<and>
        recognize_body env self now = Inr r \<and> confidence r \<ge> confidence_threshold self) \<and>
     person_id (unknown_result now) = ''unknown'' \<and> confidence (unknown_result now) = 0 \<and>
     \<not> is_known (unknown_result now)"
proof -
  have u: "person_id (unknown_result now) = ''unknown'' \<and> confidence (unknown_result now) = 0 \<and>
     \<not> is_known (unknown_result now)"
    by (simp add: unknown_result_def)
  have k: "confidence r \<ge> confidence_threshold self" if "recognize_body env self now = Inr r" "is_known r" for r
    using that by (auto simp: recognize_body_def Let_def split: sum.splits prod.splits)
  show ?thesis
  proof (cases "\<not> deepface_available \<or> \<not> is_initialized self \<or> face_image = None \<or>
      (\<exists>img. face_image = Some img \<and> nd_size img = 0)")
    case True
    then have "recognize_face deepface_available env self face_image now = Inr (unknown_result now)"
      by (auto simp: recognize_face_def)
    with u show ?thesis by simp
  next
    case False
    then obtain img where i: "deepface_available" "is_initialized self" "face_image = Some img"
      "nd_size img \<noteq> 0" by (cases face_image) auto
    show ?thesis
    proof (cases "recognize_body env self now")
      case (Inl e)
      with i have "recognize_face deepface_available env self face_image now = Inr (unknown_result now)"
        by (simp add: recognize_face_def)
      with u show ?thesis by simp
    next
      case (Inr r)
      with i have "recognize_face deepface_available env self face_image now = Inr r"
        by (simp add: recognize_face_def)
      with i Inr u k[OF Inr] show ?thesis by simp
    qed
  qed
qed

lemmas recognizer_eval =
  recognize_face_def recognize_body_def person_avg_def mean_def is_image_file_def lower_def
  lower_char_def endswith_def distance_to_confidence_def unknown_result_def Let_def

text \<open>
  C6 as stated fails when a gallery directory cannot be listed: with alice enrolled at
  distance 0.1 (confidence 0.9, above the threshold 0.6) and carol enrolled with a
  directory whose listing raises, alice has the smallest average distance, yet the
  result is the neutral one, not known.
\<close>

theorem C6_counterexample:
  "person_avg (sample_gallery 0.1 0.1 0.9) ''alice'' = Some 0.1 \<and>
   person_avg (sample_gallery 0.1 0.1 0.9) ''carol'' = None \<and>
   distance_to_confidence (cosine_recognizer 0.6 [''alice'', ''carol'']) (Finite 0.1)
     \<ge> confidence_threshold (cosine_recognizer 0.6 [''alice'', ''carol'']) \<and>
   recognize_face True (sample_gallery 0.1 0.1 0.9) (cosine_recognizer 0.6 [''alice'', ''carol''])
      (Some \<lparr>nd_size = 76800\<rparr>) 5
     = Inr \<lparr>person_id = ''unknown'', confidence = 0, is_known = False, timestamp = 5,
            distance = Finite 0, model_name = ''''\<rparr>"
  by (simp add: recognizer_eval)

text \<open>
  C6 at concrete inputs, cosine metric and threshold 0.6: alice alone at distance 0.9 is
  reported as unknown with confidence 0.1 and distance 0.9; with alice at average 0.4
  (two images at 0.5 and 0.3) and bob at 0.2, bob is returned with confidence 0.8; with
  carol's directory unlistable the result is the neutral one.
\<close>

theorem C6_witness:
  "recognize_face True (sample_gallery 0.9 0.9 0.9) (cosine_recognizer 0.6 [''alice''])
      (Some \<lparr>nd_size = 76800\<rparr>) 5
     = Inr \<lparr>person_id = ''unknown'', confidence = 0.1, is_known = False, timestamp = 5,
            distance = Finite 0.9, model_name = ''VGG-Face''\<rparr> \<and>
   recognize_face True (sample_gallery 0.5 0.3 0.2) (cosine_recognizer 0.6 [''alice'', ''bob''])
      (Some \<lparr>nd_size = 76800\<rparr>) 5
     = Inr \<lparr>person_id = ''bob'', confidence = 0.8, is_known = True, timestamp = 5,
            distance = Finite 0.2, model_name = ''VGG-Face''\<rparr> \<and>
   person_avg (sample_gallery 0.5 0.3 0.2) ''alice'' = Some 0.4 \<and>
   recognize_face True (sample_gallery 0.5 0.3 0.2) (cosine_recognizer 0.6 [''bob'', ''carol''])
      (Some \<lparr>nd_size = 76800\<rparr>) 5 = Inr (unknown_result 5)"
  using C6_recognize_face[of True "cosine_recognizer 0.6 [''alice'']" "\<lparr>nd_size = 76800\<rparr>"
      "sample_gallery 0.9 0.9 0.9" 5]
    C6_recognize_face[of True "cosine_recognizer 0.6 [''alice'', ''bob'']" "\<lparr>nd_size = 76800\<rparr>"
      "sample_gallery 0.5 0.3 0.2" 5]
    C6_recognize_face[of True "cosine_recognizer 0.6 [''bob'', ''carol'']" "\<lparr>nd_size = 76800\<rparr>"
      "sample_gallery 0.5 0.3 0.2" 5]
  by (simp add: recognizer_eval)

text \<open>
  C7 at concrete inputs: engine unavailable; gallery not initialised; image \<^verbatim>\<open>None\<close>;
  empty image; and a gallery directory that cannot be listed.
\<close>

theorem C7_witness:
  "recognize_face False (sample_gallery 0.1 0.1 0.1) (cosine_recognizer 0.6 [''alice''])
      (Some \<lparr>nd_size = 76800\<rparr>) 5 = Inr (unknown_result 5) \<and>
   recognize_face True (sample_gallery 0.1 0.1 0.1)
      ((cosine_recognizer 0.6 [''alice''])\<lparr>is_initialized := False\<rparr>)
      (Some \<lparr>nd_size = 76800\<rparr>) 5 = Inr (unknown_result 5) \<and>
   recognize_face True (sample_gallery 0.1 0.1 0.1) (cosine_recognizer 0.6 [''alice'']) None 5
     = Inr (unknown_result 5) \<and>
   recognize_face True (sample_gallery 0.1 0.1 0.1) (cosine_recognizer 0.6 [''alice''])
      (Some \<lparr>nd_size = 0\<rparr>) 5 = Inr (unknown_result 5) \<and>
   recognize_face True (sample_gallery 0.1 0.1 0.1) (cosine_recognizer 0.6 [''carol''])
      (Some \<lparr>nd_size = 76800\<rparr>) 5 = Inr (unknown_result 5) \<and>
   is_known (unknown_result 5) = False"
  using C7_recognize_never_raises[of False "sample_gallery 0.1 0.1 0.1"
      "cosine_recognizer 0.6 [''alice'']" "Some \<lparr>nd_size = 76800\<rparr>" 5]
  by (simp add: recognizer_eval)

section \<open>Properties of the frame quality gate\<close>

text \<open>
  Claim C8. \<^verbatim>\<open>is_frame_suitable\<close> always returns a boolean (no exception leaves it). It
  returns false on \<^verbatim>\<open>None\<close> and on an empty frame. For a non-empty frame whose Laplacian
  variance is \<open>v\<close> and whose mean gray brightness is \<open>m\<close>, it returns true exactly when
  \<open>v\<close> is not below the blur threshold and \<open>30 \<le> m \<le> 225\<close>: so it is false when
  \<open>v < thr\<close> (a zero-variance frame is rejected under any positive threshold, whatever
  its brightness), false when \<open>m < 30\<close> or \<open>m > 225\<close>, and brightness exactly 30 or 225
  passes.
\<close>

theorem C8_frame_quality:
  "(\<exists>b. is_frame_suitable fr thr = Inr b) \<and>
   is_frame_suitable None thr = Inr False \<and>
   (nd_size f = 0 \<longrightarrow> is_frame_suitable (Some f) thr = Inr False) \<and>
   (nd_size f \<noteq> 0 \<and> to_gray f = Inr g \<and> laplacian_var g = Inr v \<and> gray_mean g = Inr m \<longrightarrow>
      is_frame_suitable (Some f) thr = Inr (\<not> v < thr \<and> \<not> (m < 30 \<or> m > 225)) \<and>
      (v < thr \<longrightarrow> is_frame_suitable (Some f) thr = Inr False) \<and>
      (v = 0 \<and> 0 < thr \<longrightarrow> is_frame_suitable (Some f) thr = Inr False) \<and>
      (m < 30 \<or> m > 225 \<longrightarrow> is_frame_suitable (Some f) thr = Inr False) \<and>
      (\<not> v < thr \<and> (m = 30 \<or> m = 225) \<longrightarrow> is_frame_suitable (Some f) thr = Inr True))"
proof -
  have total: "\<exists>b. is_frame_suitable fr thr = Inr b"
    by (cases fr) (auto simp: is_frame_suitable_def split: sum.splits)
  have main: "is_frame_suitable (Some f) thr = Inr (\<not> v < thr \<and> \<not> (m < 30 \<or> m > 225))"
    if "nd_size f \<noteq> 0" "to_gray f = Inr g" "laplacian_var g = Inr v" "gray_mean g = Inr m"
    using that by (simp add: is_frame_suitable_def suitable_body_def detect_blur_def Let_def)
  have empty: "nd_size f = 0 \<longrightarrow> is_frame_suitable (Some f) thr = Inr False"
    by (simp add: is_frame_suitable_def suitable_body_def)
  have none: "is_frame_suitable None thr = Inr False"
    by (simp add: is_frame_suitable_def)
  show ?thesis
  proof (intro conjI impI)
    show "\<exists>b. is_frame_suitable fr thr = Inr b" by (rule total)
    show "is_frame_suitable None thr = Inr False" by (rule none)
    show "is_frame_suitable (Some f) thr = Inr False" if "nd_size f = 0"
      using that empty by simp
  next
    assume a: "nd_size f \<noteq> 0 \<and> to_gray f = Inr g \<and> laplacian_var g = Inr v \<and> gray_mean g = Inr m"
    then have m: "is_frame_suitable (Some f) thr = Inr (\<not> v < thr \<and> \<not> (m < 30 \<or> m > 225))"
      using main by blast
    show "is_frame_suitable (Some f) thr = Inr (\<not> v < thr \<and> \<not> (m < 30 \<or> m > 225))" by (rule m)
    show "is_frame_suitable (Some f) thr = Inr False" if "v < thr" using m that by simp
    show "is_frame_suitable (Some f) thr = Inr False" if "v = 0 \<and> 0 < thr" using m that by simp
    show "is_frame_suitable (Some f) thr = Inr False" if "m < 30 \<or> m > 225" using m that by auto
    show "is_frame_suitable (Some f) thr = Inr True" if "\<not> v < thr \<and> (m = 30 \<or> m = 225)"
      using m that by auto
  qed
qed

text \<open>
  C8 at concrete inputs, threshold 100: a uniform frame (variance 0); brightness exactly
  30 and 225 (accepted); 29.9 and 225.1 (rejected); variance 99.9; an empty frame.
\<close>

theorem C8_witness:
  "is_frame_suitable (Some (sample_frame 921600 0 128)) 100 = Inr False \<and>
   is_frame_suitable (Some (sample_frame 921600 250 30)) 100 = Inr True \<and>
   is_frame_suitable (Some (sample_frame 921600 250 225)) 100 = Inr True \<and>
   is_frame_suitable (Some (sample_frame 921600 250 29.9)) 100 = Inr False \<and>
   is_frame_suitable (Some (sample_frame 921600 250 225.1)) 100 = Inr False \<and>
   is_frame_suitable (Some (sample_frame 921600 99.9 128)) 100 = Inr False \<and>
   is_frame_suitable (Some (sample_frame 0 250 128)) 100 = Inr False"
  using C8_frame_quality[of "Some (sample_frame 921600 0 128)" 100 "sample_frame 921600 0 128"
      "\<lparr>laplacian_var = Inr 0, gray_mean = Inr 128\<rparr>" 0 128]
    C8_frame_quality[of None 100 "sample_frame 921600 250 30"
      "\<lparr>laplacian_var = Inr 250, gray_mean = Inr 30\<rparr>" 250 30]
    C8_frame_quality[of None 100 "sample_frame 921600 250 225"
      "\<lparr>laplacian_var = Inr 250, gray_mean = Inr 225\<rparr>" 250 225]
    C8_frame_quality[of None 100 "sample_frame 921600 250 29.9"
      "\<lparr>laplacian_var = Inr 250, gray_mean = Inr 29.9\<rparr>" 250 "29.9"]
    C8_frame_quality[of None 100 "sample_frame 0 250 128"
      "\<lparr>laplacian_var = Inr 250, gray_mean = Inr 128\<rparr>" 250 128]
  by (simp add: is_frame_suitable_def suitable_body_def detect_blur_def)

section \<open>Properties of the cooldown gate and of the orchestration\<close>

text \<open>
  Claim C3 (as amended). \<^verbatim>\<open>should_play_message\<close> permits an announcement for \<open>p\<close> at
  time \<open>now\<close> exactly when \<open>now - last > cooldown\<close> (strict), where \<open>last\<close> is the recorded
  timestamp of \<open>p\<close>, or 0 when \<open>p\<close> has none. So at any time later than the cooldown
  itself (every reading of an epoch clock), \<open>p\<close> is permitted exactly when it has no
  record or \<open>now - last > cooldown\<close>. With a cooldown of 30 (the constructor's value) a
  person announced at 0 is not eligible at 29.9 and is eligible at 30.1. The audio
  manager's own gate \<^verbatim>\<open>_is_in_cooldown\<close> lets a person pass exactly when it has no record
  or \<open>now - last \<ge> cooldown\<close> (not strict); it agrees at 29.9 and 30.1.
\<close>

theorem C3_cooldown_gate:
  "(should_play_message self p now \<longleftrightarrow>
      (case last_recognition_time self p of
         None \<Rightarrow> now > recognition_cooldown self
       | Some t \<Rightarrow> now - t > recognition_cooldown self)) \<and>
   (recognition_cooldown self < now \<longrightarrow>
      (should_play_message self p now \<longleftrightarrow>
         last_recognition_time self p = None \<or>
         (\<exists>t. last_recognition_time self p = Some t \<and> now - t > recognition_cooldown self))) \<and>
   (recognition_cooldown self = 30 \<and> last_recognition_time self p = Some 0 \<longrightarrow>
      \<not> should_play_message self p 29.9 \<and> should_play_message self p 30.1) \<and>
   (\<not> is_in_cooldown am p now \<longleftrightarrow>
      last_played am p = None \<or>
      (\<exists>t. last_played am p = Some t \<and> now - t \<ge> message_cooldown am)) \<and>
   (message_cooldown am = 30 \<and> last_played am p = Some 0 \<longrightarrow>
      is_in_cooldown am p 29.9 \<and> \<not> is_in_cooldown am p 30.1) \<and>
   recognition_cooldown init_app = 30 \<and> last_recognition_time init_app p = None"
  by (auto simp: should_play_message_def is_in_cooldown_def init_app_def Let_def
           split: option.splits)

text \<open>
  C3 as stated fails: with an empty record and cooldown 30, \<^verbatim>\<open>should_play_message\<close> refuses
  alice at time 10 although she was never announced; and \<^verbatim>\<open>_is_in_cooldown\<close> lets alice,
  announced at 0, pass at time 30 although \<open>30 - 0 > 30\<close> is false.
\<close>

theorem C3_counterexample:
  "last_recognition_time (sample_app Map.empty) ''alice'' = None \<and>
   \<not> should_play_message (sample_app Map.empty) ''alice'' 10 \<and>
   last_played ((sample_audio False)\<lparr>last_played := [''alice'' \<mapsto> 0]\<rparr>) ''alice'' = Some 0 \<and>
   \<not> (30 - (0::real) > message_cooldown ((sample_audio False)\<lparr>last_played := [''alice'' \<mapsto> 0]\<rparr>)) \<and>
   \<not> is_in_cooldown ((sample_audio False)\<lparr>last_played := [''alice'' \<mapsto> 0]\<rparr>) ''alice'' 30"
  by (simp add: should_play_message_def is_in_cooldown_def)

text \<open>
  C3 at concrete inputs: cooldown 30, alice announced at 0 and asked at 29.9 and 30.1;
  alice announced at 990 and asked at 1000; bob, never announced, asked at 1000.
\<close>

theorem C3_witness:
  "recognition_cooldown (sample_app [''alice'' \<mapsto> 0]) < 1000 \<and>
   \<not> should_play_message (sample_app [''alice'' \<mapsto> 0]) ''alice'' 29.9 \<and>
   should_play_message (sample_app [''alice'' \<mapsto> 0]) ''alice'' 30.1 \<and>
   \<not> should_play_message (sample_app [''alice'' \<mapsto> 990]) ''alice'' 1000 \<and>
   should_play_message (sample_app [''alice'' \<mapsto> 990]) ''bob'' 1000 \<and>
   is_in_cooldown ((sample_audio False)\<lparr>last_played := [''alice'' \<mapsto> 0]\<rparr>) ''alice'' 29.9 \<and>
   \<not> is_in_cooldown ((sample_audio False)\<lparr>last_played := [''alice'' \<mapsto> 0]\<rparr>) ''alice'' 30.1"
  using C3_cooldown_gate[of "sample_app [''alice'' \<mapsto> 0]" "''alice''" 1000
      "(sample_audio False)\<lparr>last_played := [''alice'' \<mapsto> 0]\<rparr>"]
    C3_cooldown_gate[of "sample_app [''alice'' \<mapsto> 990]" "''alice''" 1000 "sample_audio False"]
    C3_cooldown_gate[of "sample_app [''alice'' \<mapsto> 990]" "''bob''" 1000 "sample_audio False"]
  by (simp add: should_play_message_def is_in_cooldown_def)

text \<open>
  Claim C9. When the detector is present and returns no face for the frame,
  \<^verbatim>\<open>process_frame\<close> returns status \<open>''ready''\<close> with no result; the only collaborator call
  of that tick is the detection, so the matcher is not invoked, nothing is played and
  the application state is unchanged.
\<close>

theorem C9_no_faces_ready:
  "face_detector_present self \<and> detect_faces env = Inr [] \<longrightarrow>
     status (process_frame env self now) = ''ready'' \<and>
     tr_result (process_frame env self now) = None \<and>
     calls (process_frame env self now) = [CallDetect] \<and>
     CallRecognize \<notin> set (calls (process_frame env self now)) \<and>
     tr_app (process_frame env self now) = self \<and>
     spawned (process_frame env self now) = None"
  by (simp add: process_frame_def)

text \<open>
  C9 at concrete inputs: a tick without faces, and for contrast a tick with one face,
  where the matcher is called.
\<close>

theorem C9_witness:
  "status (process_frame (sample_tick [] ''alice'') (sample_app Map.empty) 1000) = ''ready'' \<and>
   calls (process_frame (sample_tick [] ''alice'') (sample_app Map.empty) 1000) = [CallDetect] \<and>
   status (process_frame (sample_tick one_face ''alice'') (sample_app Map.empty) 1000) = ''recognized'' \<and>
   calls (process_frame (sample_tick one_face ''alice'') (sample_app Map.empty) 1000)
     = [CallDetect, CallExtract, CallRecognize, CallGetProfile, CallPlay]"
  using C9_no_faces_ready[of "sample_app Map.empty" "sample_tick [] ''alice''" 1000]
  by (simp add: process_frame_def announce_def should_play_message_def play_voice_message_def
      strip_def py_isspace_def stop_current_audio_def)

lemma play_started:
  assumes "play_voice_message env am m l pid now = (ok, am', Some th)"
  shows "ok" "am' = stop_current_audio env am" "pygame_available env"
  using assms
  by (auto simp: play_voice_message_def Let_def split: if_splits sum.splits option.splits)

lemma stop_clears:
  assumes "pygame_available env" "mixer_stop env = Inr u"
  shows "\<not> is_playing (stop_current_audio env am)"
  using assms by (simp add: stop_current_audio_def)

lemma announce_spawned:
  assumes "spawned (announce env self r now tr) = Some th"
  shows "\<exists>am. audio_manager self = Some am \<and>
           audio_manager (tr_app (announce env self r now tr))
             = Some (stop_current_audio (audio env) am) \<and>
           pygame_available (audio env)"
proof -
  from assms obtain profile am where
    p: "person_database_present self"
       "get_person_profile env (person_id r) = Inr (Some profile)"
       "audio_manager self = Some am"
    by (auto simp: announce_def split: if_splits sum.splits option.splits)
  obtain ok am' th' where pv: "play_voice_message (audio env) am (voice_message profile)
       (language_preference profile) None now = (ok, am', th')"
    by (cases "play_voice_message (audio env) am (voice_message profile)
       (language_preference profile) None now") auto
  with p assms have th: "th' = Some th" by (simp add: announce_def)
  from pv th have pv': "play_voice_message (audio env) am (voice_message profile)
       (language_preference profile) None now = (ok, am', Some th)" by simp
  have "am' = stop_current_audio (audio env) am" "pygame_available (audio env)"
    using play_started(2)[OF pv'] play_started(3)[OF pv'] by simp_all
  with p pv show ?thesis by (simp add: announce_def)
qed

lemma process_frame_spawned:
  assumes "spawned (process_frame env self now) = Some th"
  shows "\<exists>r. is_known r \<and> should_play_message self (person_id r) now \<and>
           process_frame env self now
             = announce env self r now [CallDetect, CallExtract, CallRecognize]"
  using assms
  by (auto simp: process_frame_def split: if_splits sum.splits list.splits option.splits)

lemma is_playing_playback_begin:
  "is_playing (playback_begin file_exists play_raises th now am)
     = (if \<not> file_exists then is_playing am else \<not> play_raises)"
  by (cases th) (simp add: playback_begin_def Let_def split: option.splits)

lemma tick_busy:
  assumes sp: "spawned (process_frame env (sys_app s) now) = Some th"
    and am: "audio_manager (tr_app (process_frame env (sys_app s) now)) = Some am'"
    and idle: "\<not> is_playing am'"
  shows "audio_busy (step (Tick env now begun) s) \<longleftrightarrow> begun = Some (True, False)"
proof (cases begun)
  case None
  with sp am idle show ?thesis by (simp add: audio_busy_def Let_def)
next
  case (Some b)
  obtain fe pr where b: "b = (fe, pr)" by (cases b)
  with Some sp am idle show ?thesis
    by (auto simp: audio_busy_def Let_def is_playing_playback_begin)
qed

text \<open>
  Claim C4 (as amended). In the full application the gate \<^verbatim>\<open>should_play_message\<close> is a
  per-person cooldown only: its answer does not depend on the audio manager, so it does
  not read the busy flag. \<^verbatim>\<open>play_voice_message\<close> does not wait for the audio channel
  either: when it starts a playback thread it returns true and has first run
  \<^verbatim>\<open>stop_current_audio\<close>, so that (the mixer's stop not raising) the busy flag is false at
  the moment the new thread is started. For a tick that starts an announcement, the gate
  had reported the person eligible, and after the tick the busy flag is set exactly when
  the new thread has already begun to play, never by the announcement that was in
  progress before. In the simplified application the gate is the conjunctive one:
  \<^verbatim>\<open>should_play_voice_message\<close> never holds while the mixer is busy.
\<close>

theorem C4_gate_and_forced_stop:
  "should_play_message (self\<lparr>audio_manager := a\<rparr>) p now = should_play_message self p now \<and>
   (play_voice_message aenv am message language pid now = (ok, am', Some th') \<longrightarrow>
      ok \<and> am' = stop_current_audio aenv am \<and>
      (mixer_stop aenv = Inr () \<longrightarrow> \<not> is_playing am')) \<and>
   (spawned (process_frame env (sys_app s) now) = Some th \<and> mixer_stop (audio env) = Inr () \<longrightarrow>
      (\<exists>r. tr_result (process_frame env (sys_app s) now) = Some r \<and>
           should_play_message (sys_app s) (person_id r) now) \<and>
      (audio_busy (step (Tick env now begun) s) \<longleftrightarrow> begun = Some (True, False))) \<and>
   (should_play_voice_message simple mixer_busy p now \<longrightarrow>
      \<not> is_currently_playing simple mixer_busy)"
proof -
  have gate: "should_play_message (self\<lparr>audio_manager := a\<rparr>) p now = should_play_message self p now"
    by (simp add: should_play_message_def)
  have play: "ok \<and> am' = stop_current_audio aenv am \<and>
      (mixer_stop aenv = Inr () \<longrightarrow> \<not> is_playing am')"
    if pv: "play_voice_message aenv am message language pid now = (ok, am', Some th')"
  proof -
    note ps = play_started[OF pv]
    from ps(3) have "mixer_stop aenv = Inr () \<longrightarrow> \<not> is_playing (stop_current_audio aenv am)"
      using stop_clears by blast
    with ps show ?thesis by simp
  qed
  have tick: "(\<exists>r. tr_result (process_frame env (sys_app s) now) = Some r \<and>
           should_play_message (sys_app s) (person_id r) now) \<and>
      (audio_busy (step (Tick env now begun) s) \<longleftrightarrow> begun = Some (True, False))"
    if a: "spawned (process_frame env (sys_app s) now) = Some th \<and> mixer_stop (audio env) = Inr ()"
  proof -
    let ?self = "sys_app s"
    from a obtain r where r: "is_known r" "should_play_message ?self (person_id r) now"
      "process_frame env ?self now = announce env ?self r now [CallDetect, CallExtract, CallRecognize]"
      using process_frame_spawned by blast
    with a have sp: "spawned (announce env ?self r now [CallDetect, CallExtract, CallRecognize]) = Some th"
      by simp
    from announce_spawned[OF sp] obtain am0 where am0: "audio_manager ?self = Some am0"
      "audio_manager (tr_app (announce env ?self r now [CallDetect, CallExtract, CallRecognize]))
         = Some (stop_current_audio (audio env) am0)" "pygame_available (audio env)"
      by blast
    from am0(3) a have idle: "\<not> is_playing (stop_current_audio (audio env) am0)"
      using stop_clears by blast
    have res: "tr_result (announce env ?self r now [CallDetect, CallExtract, CallRecognize]) = Some r"
      using sp by (auto simp: announce_def split: if_splits sum.splits option.splits prod.splits)
    from a have sp': "spawned (process_frame env ?self now) = Some th" by simp
    from am0(2) r(3) have am1: "audio_manager (tr_app (process_frame env ?self now))
        = Some (stop_current_audio (audio env) am0)" by simp
    have "audio_busy (step (Tick env now begun) s) \<longleftrightarrow> begun = Some (True, False)"
      using sp' am1 idle by (rule tick_busy)
    with r res show ?thesis by auto
  qed
  have simple: "\<not> is_currently_playing simple mixer_busy"
    if "should_play_voice_message simple mixer_busy p now"
    using that by (simp add: should_play_voice_message_def Let_def)
  from gate play tick simple show ?thesis by blast
qed

lemmas app_eval =
  run_events_def process_frame_def announce_def should_play_message_def
  play_voice_message_def strip_def py_isspace_def stop_current_audio_def
  playback_begin_def playback_end_def audio_busy_def Let_def

text \<open>
  C4 as stated fails: after a tick that announces alice at time 1000 and the start of
  her playback, the busy flag is set and the gate reports bob eligible at time 1001.
\<close>

theorem C4_counterexample:
  "audio_busy (run_events [Tick (sample_tick one_face ''alice'') 1000 None,
                           PlaybackBegin True False 1000.5]
                 \<lparr>sys_app = sample_app Map.empty, threads = []\<rparr>) \<and>
   should_play_message
     (sys_app (run_events [Tick (sample_tick one_face ''alice'') 1000 None,
                           PlaybackBegin True False 1000.5]
                 \<lparr>sys_app = sample_app Map.empty, threads = []\<rparr>)) ''bob'' 1001"
  by (simp add: app_eval)

text \<open>
  C4 at concrete inputs: alice's announcement is playing when bob is recognized at 1001.
  The tick starts bob's announcement; the busy flag is clear after the tick when bob's
  thread has not begun yet, and set when it has. In the simplified application bob is
  eligible when the mixer is idle and not when it is busy.
\<close>

theorem C4_witness:
  "audio_busy \<lparr>sys_app = (sample_app [''alice'' \<mapsto> 1000])\<lparr>audio_manager := Some (sample_audio True)\<rparr>,
               threads = []\<rparr> \<and>
   spawned (process_frame (sample_tick one_face ''bob'')
      ((sample_app [''alice'' \<mapsto> 1000])\<lparr>audio_manager := Some (sample_audio True)\<rparr>) 1001)
     = Some (''tts.mp3'', None) \<and>
   \<not> audio_busy (step (Tick (sample_tick one_face ''bob'') 1001 None)
      \<lparr>sys_app = (sample_app [''alice'' \<mapsto> 1000])\<lparr>audio_manager := Some (sample_audio True)\<rparr>,
       threads = []\<rparr>) \<and>
   audio_busy (step (Tick (sample_tick one_face ''bob'') 1001 (Some (True, False)))
      \<lparr>sys_app = (sample_app [''alice'' \<mapsto> 1000])\<lparr>audio_manager := Some (sample_audio True)\<rparr>,
       threads = []\<rparr>) \<and>
   play_voice_message (audio (sample_tick one_face ''bob'')) (sample_audio True) ''Hello'' ''en''
      None 1001 = (True, sample_audio False, Some (''tts.mp3'', None)) \<and>
   should_play_voice_message
     \<lparr>simple_audio_enabled = True, last_voice_time = Map.empty, voice_cooldown = 30\<rparr>
     (Inr False) ''bob'' 1001 \<and>
   \<not> should_play_voice_message
     \<lparr>simple_audio_enabled = True, last_voice_time = Map.empty, voice_cooldown = 30\<rparr>
     (Inr True) ''bob'' 1001"
  using C4_gate_and_forced_stop[where
      self = "(sample_app [''alice'' \<mapsto> 1000])\<lparr>audio_manager := Some (sample_audio True)\<rparr>"
      and a = "Some (sample_audio True)" and p = "''bob''" and now = 1001
      and aenv = "audio (sample_tick one_face ''bob'')" and am = "sample_audio True"
      and message = "''Hello''" and language = "''en''" and pid = None and ok = True
      and am' = "sample_audio False" and th' = "(''tts.mp3'', None)"
      and env = "sample_tick one_face ''bob''" and th = "(''tts.mp3'', None)"
      and s = "\<lparr>sys_app = (sample_app [''alice'' \<mapsto> 1000])\<lparr>audio_manager := Some (sample_audio True)\<rparr>,
                 threads = []\<rparr>"
      and begun = "Some (True, False)"
      and simple = "\<lparr>simple_audio_enabled = True, last_voice_time = Map.empty, voice_cooldown = 30\<rparr>"
      and mixer_busy = "Inr False"]
  by (simp add: app_eval should_play_voice_message_def is_currently_playing_def)

end
